theory Spec2Isabelle
  imports Main "HOL-Library.Multiset"
begin

unbundle bit_operations_syntax

section \<open>Integer types (types.hpp)\<close>

text \<open>
  \<open>NeuronId\<close> is \<open>uint32_t\<close>, \<open>Tick\<close> is \<open>int64_t\<close>, \<open>Charge\<close> is \<open>int32_t\<close> and
  \<open>Weight\<close> is \<open>int8_t\<close>. Identifiers and sizes are natural numbers. Signed machine
  integers are values of type \<open>int\<close>; every store into an 8-bit field and every 32-bit
  sum or product of the source is narrowed explicitly with \<open>to_int8\<close> and \<open>to_int32\<close>
  (two's complement wrap-around). Tick arithmetic (64 bit) and the initial value
  \<open>-R - 1\<close> of \<open>lastFiredStep\<close> are left unbounded.
\<close>

type_synonym NeuronId = nat
type_synonym Tick = int
type_synonym Charge = int
type_synonym Weight = int

definition to_int8 :: "int \<Rightarrow> int" where
  "to_int8 x = (x + 128) mod 256 - 128"

definition to_int32 :: "int \<Rightarrow> int" where
  "to_int32 x = (x + 2147483648) mod 4294967296 - 2147483648"

definition to_uint32 :: "int \<Rightarrow> nat" where
  "to_uint32 x = nat (x mod 4294967296)"

text \<open>Division and remainder of C++: the quotient is truncated towards zero.\<close>

definition cdiv :: "int \<Rightarrow> int \<Rightarrow> int" where
  "cdiv a b = sgn a * sgn b * (\<bar>a\<bar> div \<bar>b\<bar>)"

definition crem :: "int \<Rightarrow> int \<Rightarrow> int" where
  "crem a b = a - b * cdiv a b"

text \<open>\<open>std::clamp(v, lo, hi)\<close>.\<close>

definition std_clamp :: "int \<Rightarrow> int \<Rightarrow> int \<Rightarrow> int" where
  "std_clamp v lo hi = (if v < lo then lo else if hi < v then hi else v)"

definition WEIGHT_MIN :: Weight where "WEIGHT_MIN = - 16"
definition WEIGHT_MAX :: Weight where "WEIGHT_MAX = 16"
definition CHARGE_MIN :: Charge where "CHARGE_MIN = 0"
definition STDP_WINDOW :: Tick where "STDP_WINDOW = 20"

section \<open>Neuromodulators (types.hpp)\<close>

record Neuromodulators =
  dopamine :: int
  norepinephrine :: int
  serotonin :: int
  acetylcholine :: int

definition Neuromodulators_init :: Neuromodulators where
  "Neuromodulators_init =
     \<lparr>dopamine = 50, norepinephrine = 30, serotonin = 50, acetylcholine = 50\<rparr>"

definition decayToward :: "int \<Rightarrow> int \<Rightarrow> int" where
  "decayToward base v =
     (if v > base then to_int8 (v - 1) else if v < base then to_int8 (v + 1) else v)"

definition decay :: "Neuromodulators \<Rightarrow> Neuromodulators" where
  "decay c =
     \<lparr>dopamine = decayToward 50 (dopamine c),
      norepinephrine = decayToward 30 (norepinephrine c),
      serotonin = decayToward 50 (serotonin c),
      acetylcholine = decayToward 50 (acetylcholine c)\<rparr>"

definition clampVal :: "int \<Rightarrow> int" where
  "clampVal val = (let v = (if val < 0 then 0 else val) in if v > 100 then 100 else v)"

definition clamp :: "Neuromodulators \<Rightarrow> Neuromodulators" where
  "clamp c =
     \<lparr>dopamine = clampVal (dopamine c),
      norepinephrine = clampVal (norepinephrine c),
      serotonin = clampVal (serotonin c),
      acetylcholine = clampVal (acetylcholine c)\<rparr>"

text \<open>
  \<open>void spikeDopamine(int8_t amount) { dopamine += amount; clamp(); }\<close> and its three
  siblings: the sum is computed in \<open>int\<close>, stored back into the \<open>int8_t\<close> field, and
  only then clamped.
\<close>

definition spikeDopamine :: "int \<Rightarrow> Neuromodulators \<Rightarrow> Neuromodulators" where
  "spikeDopamine amount c = clamp (c\<lparr>dopamine := to_int8 (dopamine c + amount)\<rparr>)"

definition spikeNorepinephrine :: "int \<Rightarrow> Neuromodulators \<Rightarrow> Neuromodulators" where
  "spikeNorepinephrine amount c =
     clamp (c\<lparr>norepinephrine := to_int8 (norepinephrine c + amount)\<rparr>)"



section \<open>Synapse (synapse.hpp, synapse.cpp)\<close>

definition ELIGIBILITY_MAX :: int where "ELIGIBILITY_MAX = 100"
definition ELIGIBILITY_DECAY :: int where "ELIGIBILITY_DECAY = 1"
definition REWARD_SCALE_FACTOR :: int where "REWARD_SCALE_FACTOR = 50"

record Synapse =
  targetNeuronIndex :: NeuronId
  weight :: Weight
  isHebbian :: bool
  eligibilityTrace :: int

definition clampWeight :: "Synapse \<Rightarrow> Synapse" where
  "clampWeight s = s\<lparr>weight := std_clamp (weight s) WEIGHT_MIN WEIGHT_MAX\<rparr>"

definition Synapse_new :: "NeuronId \<Rightarrow> Weight \<Rightarrow> bool \<Rightarrow> Synapse" where
  "Synapse_new target w plastic =
     clampWeight \<lparr>targetNeuronIndex = target, weight = w, isHebbian = plastic,
                  eligibilityTrace = 0\<rparr>"

definition calculateSTDPDelta :: "Tick \<Rightarrow> Weight" where
  "calculateSTDPDelta deltaT =
     (if deltaT = 0 then 0
      else let absDelta = \<bar>deltaT\<bar> in
        if absDelta > STDP_WINDOW then 0
        else let magnitude = to_int32 (cdiv (2 * (STDP_WINDOW - absDelta)) STDP_WINDOW) in
          if deltaT > 0 then to_int8 magnitude else to_int8 (- magnitude))"

definition markEligible :: "Tick \<Rightarrow> Tick \<Rightarrow> Synapse \<Rightarrow> Synapse" where
  "markEligible preFired postFired s =
     (if \<not> isHebbian s then s
      else let deltaT = postFired - preFired in
        if deltaT > 0 \<and> deltaT \<le> STDP_WINDOW
        then s\<lparr>eligibilityTrace := ELIGIBILITY_MAX\<rparr> else s)"

definition updateWeight :: "Tick \<Rightarrow> Tick \<Rightarrow> Synapse \<Rightarrow> Synapse" where
  "updateWeight preFired postFired s =
     (if \<not> isHebbian s then s
      else let delta = calculateSTDPDelta (postFired - preFired) in
        clampWeight (s\<lparr>weight := to_int8 (weight s + delta)\<rparr>))"

definition decayEligibility :: "Synapse \<Rightarrow> Synapse" where
  "decayEligibility s =
     (if eligibilityTrace s > 0
      then let t = to_int8 (eligibilityTrace s - ELIGIBILITY_DECAY) in
        s\<lparr>eligibilityTrace := (if t < 0 then 0 else t)\<rparr>
      else s)"

text \<open>
  \<open>applyReward\<close>: the product \<open>static_cast<int32_t>(eligibilityTrace) * rewardAmount\<close>
  is a 32-bit product, divided (truncating) by the scale factor, clamped to \<open>[-16, 16]\<close>
  and added to the 8-bit weight. The guard \<open>!isHebbian || eligibilityTrace <= 0\<close> is
  evaluated left to right.
\<close>

definition applyReward :: "int \<Rightarrow> Synapse \<Rightarrow> Synapse" where
  "applyReward rewardAmount s =
     (if \<not> isHebbian s then s
      else if eligibilityTrace s \<le> 0 then s
      else let delta = cdiv (to_int32 (eligibilityTrace s * rewardAmount)) REWARD_SCALE_FACTOR;
               s1 = s\<lparr>weight := to_int8 (weight s + std_clamp delta (- 16) 16)\<rparr>
           in (clampWeight s1)\<lparr>eligibilityTrace := 0\<rparr>)"

section \<open>Neuron (neuron.hpp)\<close>

definition DEFAULT_THRESHOLD :: Charge where "DEFAULT_THRESHOLD = 10"
definition DEFAULT_LEAK :: Charge where "DEFAULT_LEAK = 1"
definition DEFAULT_REFRACTORY :: int where "DEFAULT_REFRACTORY = 5"

record Neuron =
  currentCharge :: Charge
  leakRate :: Charge
  threshold :: Charge
  lastFiredStep :: Tick
  refractoryDelay :: int
  synapseListIndex :: nat
  synapseCount :: nat

definition Neuron_new :: "Charge \<Rightarrow> Charge \<Rightarrow> int \<Rightarrow> Neuron" where
  "Neuron_new thresh leak refractory =
     \<lparr>currentCharge = 0, leakRate = leak, threshold = thresh,
      lastFiredStep = - refractory - 1, refractoryDelay = refractory,
      synapseListIndex = 0, synapseCount = 0\<rparr>"

definition isRefractory :: "Neuron \<Rightarrow> Tick \<Rightarrow> bool" where
  "isRefractory n tick \<longleftrightarrow> tick - lastFiredStep n \<le> refractoryDelay n"

definition applyLeak :: "Neuron \<Rightarrow> Neuron" where
  "applyLeak n = n\<lparr>currentCharge := max CHARGE_MIN (to_int32 (currentCharge n - leakRate n))\<rparr>"

definition addCharge :: "Charge \<Rightarrow> Neuron \<Rightarrow> Neuron" where
  "addCharge amount n = n\<lparr>currentCharge := to_int32 (currentCharge n + amount)\<rparr>"

text \<open>
  \<open>checkAndFire\<close> is the per-neuron firing test of the header. It clamps a negative
  charge to \<open>CHARGE_MIN\<close> before the threshold test. \<open>Network::firingPhase\<close> does not
  call it.
\<close>

definition checkAndFire :: "Tick \<Rightarrow> Neuron \<Rightarrow> bool \<times> Neuron" where
  "checkAndFire tick n =
     (if isRefractory n tick then (False, n)
      else let n1 = (if currentCharge n < CHARGE_MIN then n\<lparr>currentCharge := CHARGE_MIN\<rparr> else n)
           in if currentCharge n1 \<ge> threshold n1
              then (True, n1\<lparr>currentCharge := 0, lastFiredStep := tick\<rparr>)
              else (False, n1))"

definition Neuron_reset :: "Neuron \<Rightarrow> Neuron" where
  "Neuron_reset n = n\<lparr>currentCharge := 0, lastFiredStep := - refractoryDelay n - 1\<rparr>"

section \<open>Spike queue (spike_queue.hpp)\<close>

text \<open>
  A spike event is \<open>(neuronId, tick)\<close>. The priority queue is a list in insertion
  order; its top is an event of least tick (the earliest inserted one among those).
\<close>

type_synonym SpikeEvent = "NeuronId \<times> Tick"

record SpikeQueue =
  queue :: "SpikeEvent list"
  currentFired :: "NeuronId list"
  sq_currentTick :: Tick

definition SpikeQueue_new :: SpikeQueue where
  "SpikeQueue_new = \<lparr>queue = [], currentFired = [], sq_currentTick = 0\<rparr>"

fun pq_top :: "SpikeEvent list \<Rightarrow> SpikeEvent option" where
  "pq_top [] = None"
| "pq_top (e # es) =
     (case pq_top es of None \<Rightarrow> Some e
      | Some m \<Rightarrow> if snd m < snd e then Some m else Some e)"

definition addSpike :: "NeuronId \<Rightarrow> Tick \<Rightarrow> SpikeQueue \<Rightarrow> SpikeQueue" where
  "addSpike neuron tick q =
     q\<lparr>queue := queue q @ [(neuron, tick)],
       currentFired := (if tick = sq_currentTick q then currentFired q @ [neuron]
                        else currentFired q)\<rparr>"

function popSpikes :: "Tick \<Rightarrow> SpikeEvent list \<Rightarrow> NeuronId list \<times> SpikeEvent list" where
  "popSpikes tick q =
     (case pq_top q of None \<Rightarrow> ([], q)
      | Some e \<Rightarrow>
          if snd e = tick
          then (let r = popSpikes tick (remove1 e q) in (fst e # fst r, snd r))
          else ([], q))"
  by pat_completeness auto
termination
proof (relation "measure (\<lambda>(tick, q). length q)")
  show "wf (measure (\<lambda>(tick, q). length q))" by simp
next
  fix tick :: Tick and q :: "SpikeEvent list" and e :: SpikeEvent
  assume top: "pq_top q = Some e"
  have mem: "pq_top xs = Some x \<Longrightarrow> x \<in> set xs" for xs x
    by (induction xs arbitrary: x) (auto split: option.splits if_splits)
  have "e \<in> set q" using top by (rule mem)
  then have "length (remove1 e q) < length q"
    by (simp add: length_remove1) (cases q, auto)
  then show "((tick, remove1 e q), (tick, q)) \<in> measure (\<lambda>(tick, q). length q)"
    by simp
qed

definition getSpikesForTick :: "Tick \<Rightarrow> SpikeQueue \<Rightarrow> NeuronId list \<times> SpikeQueue" where
  "getSpikesForTick tick q =
     (let r = popSpikes tick (queue q) in (fst r, q\<lparr>queue := snd r\<rparr>))"

definition SpikeQueue_clear :: "SpikeQueue \<Rightarrow> SpikeQueue" where
  "SpikeQueue_clear q = q\<lparr>queue := [], currentFired := [], sq_currentTick := 0\<rparr>"

definition advanceTick :: "Tick \<Rightarrow> SpikeQueue \<Rightarrow> SpikeQueue" where
  "advanceTick newTick q = q\<lparr>sq_currentTick := newTick, currentFired := []\<rparr>"

section \<open>Network (network.hpp, network.cpp)\<close>

text \<open>
  The two \<open>unordered_set\<close>s of fired neurons are duplicate-free lists. The overflow
  store \<open>dynamicSynapses_\<close> is an association list with one entry per key. The
  refractory bitset is a list of 64-bit words: bit \<open>nid mod 64\<close> of word
  \<open>nid div 64\<close> belongs to neuron \<open>nid\<close>. \<open>addNeuron\<close> keeps the bitset
  long enough for every neuron, so the length test in \<open>isRefractoryFast\<close> is never
  false for a neuron id; likewise the arena ranges read by \<open>contiguousOf\<close> lie
  inside the arena for networks built with \<open>connectNeurons\<close>.
\<close>

record Network =
  currentTick :: Tick
  plasticityEnabled :: bool
  operantMode :: bool
  razorEnabled :: bool
  maxSpikesPerTick :: nat
  lastCandidateCount :: nat
  chemicals :: Neuromodulators
  neurons :: "Neuron list"
  synapses :: "Synapse list"
  dynamicSynapses :: "(NeuronId \<times> Synapse list) list"
  spikeQueue :: SpikeQueue
  firedThisTick :: "NeuronId list"
  firedLastTick :: "NeuronId list"
  refractoryBits :: "nat list"

definition ENABLE_RAZOR :: bool where "ENABLE_RAZOR = True"
definition MAX_SPIKES_PER_TICK :: nat where "MAX_SPIKES_PER_TICK = 5000"

definition Network_new :: "nat \<Rightarrow> nat \<Rightarrow> Network" where
  "Network_new numNeurons maxSynapses =
     \<lparr>currentTick = 0, plasticityEnabled = True, operantMode = False,
      razorEnabled = ENABLE_RAZOR, maxSpikesPerTick = MAX_SPIKES_PER_TICK,
      lastCandidateCount = 0, chemicals = Neuromodulators_init,
      neurons = [], synapses = [], dynamicSynapses = [],
      spikeQueue = SpikeQueue_new, firedThisTick = [], firedLastTick = [],
      refractoryBits = replicate ((numNeurons + 63) div 64) 0\<rparr>"

definition fired_insert :: "NeuronId \<Rightarrow> NeuronId list \<Rightarrow> NeuronId list" where
  "fired_insert x xs = (if x \<in> set xs then xs else xs @ [x])"

definition addNeuron :: "Charge \<Rightarrow> Charge \<Rightarrow> int \<Rightarrow> Network \<Rightarrow> NeuronId \<times> Network" where
  "addNeuron thresh leak refractory net =
     (let nid = length (neurons net);
          ns = neurons net @ [Neuron_new thresh leak refractory];
          requiredWords = (length ns + 63) div 64;
          bits = (if length (refractoryBits net) < requiredWords
                  then refractoryBits net
                         @ replicate (requiredWords - length (refractoryBits net)) 0
                  else refractoryBits net)
      in (nid, net\<lparr>neurons := ns, refractoryBits := bits\<rparr>))"

fun dyn_append :: "NeuronId \<Rightarrow> Synapse \<Rightarrow> (NeuronId \<times> Synapse list) list
    \<Rightarrow> (NeuronId \<times> Synapse list) list" where
  "dyn_append k s [] = [(k, [s])]"
| "dyn_append k s ((k', v) # rest) =
     (if k' = k then (k', v @ [s]) # rest else (k', v) # dyn_append k s rest)"

fun dyn_find :: "NeuronId \<Rightarrow> (NeuronId \<times> Synapse list) list \<Rightarrow> Synapse list" where
  "dyn_find k [] = []"
| "dyn_find k ((k', v) # rest) = (if k' = k then v else dyn_find k rest)"

definition connectNeurons ::
    "NeuronId \<Rightarrow> NeuronId \<Rightarrow> Weight \<Rightarrow> bool \<Rightarrow> Network \<Rightarrow> bool \<times> Network" where
  "connectNeurons from to w plastic net =
     (if from \<ge> length (neurons net) \<or> to \<ge> length (neurons net) then (False, net)
      else let src = neurons net ! from;
               canAddContiguous = (synapseCount src = 0 \<or>
                  synapseListIndex src + synapseCount src = length (synapses net))
           in if canAddContiguous
              then let src1 = (if synapseCount src = 0
                               then src\<lparr>synapseListIndex := length (synapses net)\<rparr> else src);
                       src2 = src1\<lparr>synapseCount := (synapseCount src1 + 1) mod 65536\<rparr>
                   in (True, net\<lparr>synapses := synapses net @ [Synapse_new to w plastic],
                                 neurons := (neurons net)[from := src2]\<rparr>)
              else (True, net\<lparr>dynamicSynapses :=
                                dyn_append from (Synapse_new to w plastic) (dynamicSynapses net)\<rparr>))"

definition injectSpike :: "NeuronId \<Rightarrow> Network \<Rightarrow> Network" where
  "injectSpike neuron net =
     (if neuron < length (neurons net)
      then net\<lparr>spikeQueue := addSpike neuron (currentTick net) (spikeQueue net),
               firedThisTick := fired_insert neuron (firedThisTick net),
               neurons := (neurons net)[neuron :=
                  (neurons net ! neuron)\<lparr>lastFiredStep := currentTick net\<rparr>]\<rparr>
      else net)"

definition injectCharge :: "NeuronId \<Rightarrow> Charge \<Rightarrow> Network \<Rightarrow> Network" where
  "injectCharge neuron amount net =
     (if neuron < length (neurons net)
      then net\<lparr>neurons := (neurons net)[neuron := addCharge amount (neurons net ! neuron)]\<rparr>
      else net)"


definition getCharge :: "Network \<Rightarrow> NeuronId \<Rightarrow> Charge" where
  "getCharge net neuron =
     (if neuron < length (neurons net) then currentCharge (neurons net ! neuron) else 0)"

subsection \<open>Leakage\<close>

definition leakNeuron :: "int \<Rightarrow> Tick \<Rightarrow> Neuron \<Rightarrow> Neuron" where
  "leakNeuron serotoninBonus tick n =
     (if \<not> isRefractory n tick
      then let n1 = applyLeak n in
        if serotoninBonus > 0 \<and> currentCharge n1 > 0
        then let c = to_int32 (currentCharge n1 - serotoninBonus)
             in n1\<lparr>currentCharge := (if c < 0 then 0 else c)\<rparr>
        else n1
      else n)"

definition leakagePhase :: "Network \<Rightarrow> Network" where
  "leakagePhase net =
     (let serotoninBonus = to_int8 (cdiv (serotonin (chemicals net)) 10)
      in net\<lparr>neurons := map (leakNeuron serotoninBonus (currentTick net)) (neurons net)\<rparr>)"

subsection \<open>Refractory bitset and integration\<close>

definition updateRefractoryBits :: "Network \<Rightarrow> Network" where
  "updateRefractoryBits net =
     net\<lparr>refractoryBits :=
        fold (\<lambda>nid bits. if isRefractory (neurons net ! nid) (currentTick net)
                         then bits[nid div 64 := set_bit (nid mod 64) (bits ! (nid div 64))]
                         else bits)
          [0..<length (neurons net)]
          (map (\<lambda>_. 0) (refractoryBits net))\<rparr>"

definition isRefractoryFast :: "Network \<Rightarrow> NeuronId \<Rightarrow> bool" where
  "isRefractoryFast net nid \<longleftrightarrow>
     nid div 64 < length (refractoryBits net) \<and> bit (refractoryBits net ! (nid div 64)) (nid mod 64)"

definition contiguousOf :: "Network \<Rightarrow> Neuron \<Rightarrow> Synapse list" where
  "contiguousOf net pre = take (synapseCount pre) (drop (synapseListIndex pre) (synapses net))"

definition deliver :: "Network \<Rightarrow> Synapse \<Rightarrow> Network" where
  "deliver net syn =
     (let targetId = targetNeuronIndex syn in
      if targetId < length (neurons net) \<and> \<not> isRefractoryFast net targetId
      then net\<lparr>neurons := (neurons net)[targetId :=
             (neurons net ! targetId)\<lparr>currentCharge :=
                to_int32 (currentCharge (neurons net ! targetId) + weight syn)\<rparr>]\<rparr>
      else net)"

definition integrateSpike :: "Network \<Rightarrow> NeuronId \<Rightarrow> Network" where
  "integrateSpike net firedNeuron =
     (if firedNeuron \<ge> length (neurons net) then net
      else let pre = neurons net ! firedNeuron;
               net1 = foldl deliver net (contiguousOf net pre)
           in foldl deliver net1 (dyn_find firedNeuron (dynamicSynapses net1)))"

definition integrationPhase :: "Network \<Rightarrow> Network" where
  "integrationPhase net =
     (let r = getSpikesForTick (currentTick net - 1) (spikeQueue net);
          net1 = net\<lparr>spikeQueue := snd r\<rparr>
      in foldl integrateSpike net1 (fst r))"

text \<open>
  The synapses one tick's integration walks over, in the order of the two loops of
  \<open>integrationPhase\<close>: for every spike of the previous tick, the outgoing synapses of
  the neuron that fired, its arena range first and its overflow list second.
  \<open>weightsInto net i\<close> lists the weights of those that target neuron \<open>i\<close>.
\<close>

definition outgoingOf :: "Network \<Rightarrow> NeuronId \<Rightarrow> Synapse list" where
  "outgoingOf net pre =
     (if pre \<ge> length (neurons net) then []
      else contiguousOf net (neurons net ! pre) @ dyn_find pre (dynamicSynapses net))"

definition traversedThisTick :: "Network \<Rightarrow> Synapse list" where
  "traversedThisTick net =
     concat (map (outgoingOf net)
       (fst (getSpikesForTick (currentTick net - 1) (spikeQueue net))))"

definition weightsInto :: "Network \<Rightarrow> NeuronId \<Rightarrow> Weight list" where
  "weightsInto net i =
     map weight (filter (\<lambda>s. targetNeuronIndex s = i) (traversedThisTick net))"

subsection \<open>Firing under the Razor\<close>

text \<open>
  The linear congruential generator of the noise: \<open>seed * 1103515245 + 12345\<close> in
  \<open>uint32_t\<close>. The per-tick seed is \<open>static_cast<uint32_t>(tick * 1103515245 + 12345)\<close>.
\<close>

definition lcg :: "nat \<Rightarrow> nat" where
  "lcg seed = (seed * 1103515245 + 12345) mod 4294967296"

definition tickSeed :: "Tick \<Rightarrow> nat" where
  "tickSeed tick = to_uint32 (tick * 1103515245 + 12345)"

definition thresholdNoise :: "nat \<Rightarrow> int \<Rightarrow> int" where
  "thresholdNoise seed noiseAmplitude =
     crem (int ((seed div 65536) mod 256)) (2 * noiseAmplitude + 1) - noiseAmplitude"

definition thresholdReductionOf :: "Neuromodulators \<Rightarrow> int" where
  "thresholdReductionOf c = to_int8 (cdiv (norepinephrine c) 5)"

definition noiseAmplitudeOf :: "Neuromodulators \<Rightarrow> int" where
  "noiseAmplitudeOf c =
     (if norepinephrine c > 60 then to_int8 (cdiv (norepinephrine c - 60) 4) else 0)"

definition effectiveThresholdOf :: "int \<Rightarrow> int \<Rightarrow> nat \<Rightarrow> Neuron \<Rightarrow> Charge" where
  "effectiveThresholdOf thresholdReduction noiseAmplitude seed n =
     (let t0 = to_int32 (threshold n - thresholdReduction);
          t1 = (if noiseAmplitude > 0
                then to_int32 (t0 + thresholdNoise seed noiseAmplitude) else t0)
      in if t1 < 1 then 1 else t1)"

text \<open>
  The sequential candidate scan (the path taken without OpenMP and for fewer than
  100000 neurons). The seed is advanced once for every neuron that is not refractory;
  a refractory neuron is skipped before the generator is touched.
\<close>

fun collectCandidates ::
    "Tick \<Rightarrow> int \<Rightarrow> int \<Rightarrow> nat \<Rightarrow> NeuronId \<Rightarrow> Neuron list \<Rightarrow> (Charge \<times> NeuronId) list" where
  "collectCandidates tick red amp seed i [] = []"
| "collectCandidates tick red amp seed i (n # ns) =
     (if isRefractory n tick then collectCandidates tick red amp seed (Suc i) ns
      else let seed' = (if amp > 0 then lcg seed else seed) in
        (if currentCharge n \<ge> effectiveThresholdOf red amp seed' n
         then [(currentCharge n, i)] else [])
        @ collectCandidates tick red amp seed' (Suc i) ns)"



text \<open>
  The candidate scan of the OpenMP path (100000 neurons or more): the seed of a neuron
  is the per-tick seed xor-ed with its id, advanced once.
\<close>

definition parallelThreshold :: "Tick \<Rightarrow> int \<Rightarrow> int \<Rightarrow> NeuronId \<Rightarrow> Neuron \<Rightarrow> Charge" where
  "parallelThreshold tick red amp i n =
     effectiveThresholdOf red amp (lcg (tickSeed tick XOR i)) n"

text \<open>
  \<open>std::nth_element\<close> is a routine of the C++ standard library. It is a parameter
  \<open>sel\<close> of the firing phase: \<open>sel k xs\<close> is the vector after
  \<open>nth_element(begin, begin + k, end, comp)\<close>. With the comparator of the source,
  \<open>a.first > b.first\<close>, the standard guarantees a rearrangement in which no element
  from position \<open>k\<close> on has a larger charge than an element before position \<open>k\<close>.
\<close>

type_synonym Candidate = "Charge \<times> NeuronId"

definition nth_element_post :: "nat \<Rightarrow> Candidate list \<Rightarrow> Candidate list \<Rightarrow> bool" where
  "nth_element_post k xs ys \<longleftrightarrow>
     mset ys = mset xs \<and>
     list_all (\<lambda>a. list_all (\<lambda>b. fst b \<le> fst a) (drop k ys)) (take k ys)"

definition nth_element_ok :: "(nat \<Rightarrow> Candidate list \<Rightarrow> Candidate list) \<Rightarrow> bool" where
  "nth_element_ok sel \<longleftrightarrow> (\<forall>k xs. k < length xs \<longrightarrow> nth_element_post k xs (sel k xs))"

definition razor :: "(nat \<Rightarrow> Candidate list \<Rightarrow> Candidate list) \<Rightarrow> Network
    \<Rightarrow> Candidate list \<Rightarrow> Candidate list" where
  "razor sel net candidates =
     (if razorEnabled net \<and> length candidates > maxSpikesPerTick net
      then take (maxSpikesPerTick net) (sel (maxSpikesPerTick net) candidates)
      else candidates)"

definition fireWinner :: "Tick \<Rightarrow> Network \<Rightarrow> Candidate \<Rightarrow> Network" where
  "fireWinner tick net winner =
     (let nid = snd winner in
      net\<lparr>neurons := (neurons net)[nid :=
             (neurons net ! nid)\<lparr>currentCharge := 0, lastFiredStep := tick\<rparr>],
          spikeQueue := addSpike nid tick (spikeQueue net),
          firedThisTick := fired_insert nid (firedThisTick net)\<rparr>)"

definition candidatesOf :: "Network \<Rightarrow> Candidate list" where
  "candidatesOf net =
     collectCandidates (currentTick net) (thresholdReductionOf (chemicals net))
       (noiseAmplitudeOf (chemicals net)) (tickSeed (currentTick net)) 0 (neurons net)"

definition firingPhase :: "(nat \<Rightarrow> Candidate list \<Rightarrow> Candidate list) \<Rightarrow> Network \<Rightarrow> Network" where
  "firingPhase sel net =
     (let candidates = candidatesOf net;
          net1 = net\<lparr>lastCandidateCount := length candidates\<rparr>
      in foldl (fireWinner (currentTick net)) net1 (razor sel net1 candidates))"

subsection \<open>Plasticity, eligibility decay, reward\<close>

definition map_range :: "nat \<Rightarrow> nat \<Rightarrow> ('a \<Rightarrow> 'a) \<Rightarrow> 'a list \<Rightarrow> 'a list" where
  "map_range lo cnt f xs = take lo xs @ map f (take cnt (drop lo xs)) @ drop (lo + cnt) xs"

text \<open>
  One pass over the outgoing synapses of \<open>preId\<close>: the contiguous range of the arena,
  then the overflow entry. Fired ids are valid neuron ids (\<open>injectSpike\<close> checks the
  id, candidates are indices of the neuron vector).
\<close>

definition forOutgoing :: "(Synapse \<Rightarrow> Synapse) \<Rightarrow> NeuronId \<Rightarrow> Network \<Rightarrow> Network" where
  "forOutgoing f preId net =
     (let pre = neurons net ! preId in
      net\<lparr>synapses := map_range (synapseListIndex pre) (synapseCount pre) f (synapses net),
          dynamicSynapses :=
            map (\<lambda>kv. if fst kv = preId then (fst kv, map f (snd kv)) else kv)
              (dynamicSynapses net)\<rparr>)"

definition applySTDP :: "Network \<Rightarrow> NeuronId \<Rightarrow> NeuronId \<Rightarrow> Synapse \<Rightarrow> Synapse" where
  "applySTDP net preId postId syn =
     (if \<not> isHebbian syn then syn
      else let preFired = lastFiredStep (neurons net ! preId);
               postFired = lastFiredStep (neurons net ! postId)
           in if operantMode net then markEligible preFired postFired syn
              else updateWeight preFired postFired syn)"

definition ltpSynapse :: "Network \<Rightarrow> NeuronId \<Rightarrow> Synapse \<Rightarrow> Synapse" where
  "ltpSynapse net preId syn =
     (if targetNeuronIndex syn \<in> set (firedThisTick net)
      then applySTDP net preId (targetNeuronIndex syn) syn else syn)"

definition ltdSynapse :: "Network \<Rightarrow> NeuronId \<Rightarrow> Synapse \<Rightarrow> Synapse" where
  "ltdSynapse net preId syn =
     (if isHebbian syn \<and> targetNeuronIndex syn \<in> set (firedLastTick net)
      then let preFired = lastFiredStep (neurons net ! preId);
               postFired = lastFiredStep (neurons net ! targetNeuronIndex syn);
               deltaT = postFired - preFired
           in if deltaT < 0 \<and> \<bar>deltaT\<bar> \<le> STDP_WINDOW
              then updateWeight preFired postFired syn else syn
      else syn)"

definition plasticityPhase :: "Network \<Rightarrow> Network" where
  "plasticityPhase net =
     (if dopamine (chemicals net) < 10 then net
      else let net1 = foldl (\<lambda>s preId. forOutgoing (ltpSynapse s preId) preId s) net
                        (firedLastTick net)
           in if \<not> operantMode net1
              then foldl (\<lambda>s preId. forOutgoing (ltdSynapse s preId) preId s) net1
                     (firedThisTick net1)
              else net1)"

definition forAllSynapses :: "(Synapse \<Rightarrow> Synapse) \<Rightarrow> Network \<Rightarrow> Network" where
  "forAllSynapses f net =
     net\<lparr>synapses := map f (synapses net),
         dynamicSynapses := map (\<lambda>kv. (fst kv, map f (snd kv))) (dynamicSynapses net)\<rparr>"

definition decayEligibilityTraces :: "Network \<Rightarrow> Network" where
  "decayEligibilityTraces net = forAllSynapses decayEligibility net"

definition injectReward :: "int \<Rightarrow> Network \<Rightarrow> Network" where
  "injectReward amount net = forAllSynapses (applyReward amount) net"

text \<open>Every synapse of the network: the arena first, then the overflow lists.\<close>

definition allSynapses :: "Network \<Rightarrow> Synapse list" where
  "allSynapses net = synapses net @ concat (map snd (dynamicSynapses net))"

subsection \<open>Panic reset, reset and the tick\<close>

definition panicReset :: "Network \<Rightarrow> Network" where
  "panicReset net =
     net\<lparr>neurons := map (\<lambda>n. n\<lparr>currentCharge := 0\<rparr>) (neurons net),
         spikeQueue := SpikeQueue_clear (spikeQueue net),
         firedThisTick := [],
         firedLastTick := [],
         chemicals := (chemicals net)\<lparr>norepinephrine := 70\<rparr>\<rparr>"

definition Network_reset :: "Network \<Rightarrow> Network" where
  "Network_reset net =
     net\<lparr>currentTick := 0,
         firedThisTick := [],
         firedLastTick := [],
         spikeQueue := SpikeQueue_clear (spikeQueue net),
         neurons := map Neuron_reset (neurons net)\<rparr>"

definition step :: "(nat \<Rightarrow> Candidate list \<Rightarrow> Candidate list) \<Rightarrow> Network \<Rightarrow> Network" where
  "step sel net0 =
     (let net1 = net0\<lparr>firedLastTick := firedThisTick net0, firedThisTick := []\<rparr>;
          net2 = net1\<lparr>spikeQueue := advanceTick (currentTick net1) (spikeQueue net1)\<rparr>;
          net3 = updateRefractoryBits net2;
          net4 = leakagePhase net3;
          net5 = integrationPhase net4;
          net6 = firingPhase sel net5;
          net7 = (if plasticityEnabled net6 then plasticityPhase net6 else net6);
          net8 = (if operantMode net7 then decayEligibilityTraces net7 else net7);
          net9 = net8\<lparr>chemicals := decay (chemicals net8)\<rparr>;
          net10 = (if norepinephrine (chemicals net9) \<ge> 95 then panicReset net9 else net9)
      in net10\<lparr>currentTick := currentTick net10 + 1\<rparr>)"

text \<open>
  The tick in three parts: everything \<open>step\<close> does before the firing phase, and
  everything it does after it.
\<close>

definition tickPrologue :: "Network \<Rightarrow> Network" where
  "tickPrologue net0 =
     (let net1 = net0\<lparr>firedLastTick := firedThisTick net0, firedThisTick := []\<rparr>;
          net2 = net1\<lparr>spikeQueue := advanceTick (currentTick net1) (spikeQueue net1)\<rparr>
      in integrationPhase (leakagePhase (updateRefractoryBits net2)))"

definition tickEpilogue :: "Network \<Rightarrow> Network" where
  "tickEpilogue net6 =
     (let net7 = (if plasticityEnabled net6 then plasticityPhase net6 else net6);
          net8 = (if operantMode net7 then decayEligibilityTraces net7 else net7);
          net9 = net8\<lparr>chemicals := decay (chemicals net8)\<rparr>;
          net10 = (if norepinephrine (chemicals net9) \<ge> 95 then panicReset net9 else net9)
      in net10\<lparr>currentTick := currentTick net10 + 1\<rparr>)"



definition rewardSignal :: "int \<Rightarrow> Network \<Rightarrow> Network" where
  "rewardSignal amount net =
     (let net1 = net\<lparr>chemicals := spikeDopamine amount (chemicals net)\<rparr>
      in if operantMode net1 then injectReward (cdiv amount 10) net1 else net1)"

section \<open>Noise injection (Brain::injectNoise, brain.cpp)\<close>


definition chargeNoise :: "nat \<Rightarrow> int \<Rightarrow> int" where
  "chargeNoise seed amplitude =
     crem (int ((seed div 65536) mod 32768)) (to_int32 (2 * amplitude + 1)) - amplitude"

definition noiseStep :: "int \<Rightarrow> nat \<times> Network \<Rightarrow> NeuronId \<Rightarrow> nat \<times> Network" where
  "noiseStep amplitude st i =
     (let seed = lcg (fst st)
      in (seed, injectCharge i (to_int32 (chargeNoise seed amplitude)) (snd st)))"


section \<open>Cortical columns and the UKS (cortical_column.hpp, uks.hpp, uks.cpp)\<close>

record CorticalColumn =
  columnId :: nat
  inputNeurons :: "NeuronId list"
  pyramidalNeurons :: "NeuronId list"
  outputNeuron :: NeuronId
  inhibitoryNeuron :: NeuronId
  isAllocated :: bool
  isActive :: bool
  boostValue :: Charge
  allocatedAtTick :: Tick
  activationCount :: nat


record UKS =
  numColumns :: nat
  busWidth :: nat
  recognitionThreshold :: Charge
  enableLearning :: bool
  columns :: "CorticalColumn list"
  busNeurons :: "NeuronId list"
  requestNeuron :: NeuronId
  globalInhibitor :: NeuronId
  currentInput :: "NeuronId list"
  activeColumn :: "nat option"
  requestFired :: bool
  totalAllocations :: nat
  totalRecognitions :: nat

definition getAllocatedCount :: "UKS \<Rightarrow> nat" where
  "getAllocatedCount uks = length (filter isAllocated (columns uks))"

definition getFreeCount :: "UKS \<Rightarrow> nat" where
  "getFreeCount uks = length (columns uks) - getAllocatedCount uks"



definition suppressOthers :: "nat \<Rightarrow> UKS \<times> Network \<Rightarrow> UKS \<times> Network" where
  "suppressOthers winnerId st =
     (fst st,
      foldl (\<lambda>net i. if i \<noteq> winnerId \<and> \<not> isAllocated (columns (fst st) ! i)
                      then injectCharge (outputNeuron (columns (fst st) ! i)) (- 10) net
                      else net)
        (snd st) [0..<length (columns (fst st))])"

definition wireBusNeuron ::
    "UKS \<Rightarrow> CorticalColumn \<Rightarrow> NeuronId list \<Rightarrow> Network \<Rightarrow> nat \<Rightarrow> Network" where
  "wireBusNeuron uks col pattern net busIdx =
     (let busNeuron = busNeurons uks ! busIdx;
          w = (if busIdx \<in> set pattern then 1 else WEIGHT_MIN)
      in foldl (\<lambda>n inputNeuron. snd (connectNeurons busNeuron inputNeuron w False n))
           net (inputNeurons col))"

definition allocateColumn :: "nat \<Rightarrow> NeuronId list \<Rightarrow> UKS \<times> Network \<Rightarrow> UKS \<times> Network" where
  "allocateColumn cid pattern st =
     (let uks = fst st; net = snd st;
          col = (columns uks ! cid)\<lparr>isAllocated := True, allocatedAtTick := currentTick net\<rparr>;
          uks1 = uks\<lparr>columns := (columns uks)[cid := col],
                     totalAllocations := totalAllocations uks + 1\<rparr>;
          net1 = foldl (wireBusNeuron uks1 col pattern) net [0..<length (busNeurons uks1)]
      in suppressOthers cid (uks1, net1))"

definition present :: "NeuronId list \<Rightarrow> UKS \<times> Network \<Rightarrow> UKS \<times> Network" where
  "present inputPattern st =
     ((fst st)\<lparr>currentInput := inputPattern, activeColumn := None, requestFired := False\<rparr>,
      foldl (\<lambda>net inputId. if inputId < length (busNeurons (fst st))
                            then injectCharge (busNeurons (fst st) ! inputId) 10 net else net)
        (snd st) inputPattern)"






text \<open>
  \<open>Brain::reset\<close> and \<open>Brain::resetShortTermMemory\<close> call \<open>network_.reset()\<close>
  and do not call \<open>uks_.reset()\<close> ("Don't reset UKS - we want to keep learned
  columns!"). Of the brain, only the UKS and the network are part of this model.
\<close>

definition Brain_reset :: "UKS \<times> Network \<Rightarrow> UKS \<times> Network" where
  "Brain_reset st = (fst st, Network_reset (snd st))"

section \<open>Selection routines used in the examples\<close>

text \<open>
  Two rearrangements that meet the guarantee of \<open>nth_element\<close>: both sort the whole
  vector by descending charge. Among equal charges \<open>sel_small_ids\<close> keeps the vector's
  order (ascending ids), \<open>sel_large_ids\<close> reverses it.
\<close>

definition sel_small_ids :: "nat \<Rightarrow> Candidate list \<Rightarrow> Candidate list" where
  "sel_small_ids k xs = sort_key (\<lambda>c. - fst c) xs"

definition sel_large_ids :: "nat \<Rightarrow> Candidate list \<Rightarrow> Candidate list" where
  "sel_large_ids k xs = rev (sort_key fst xs)"

section \<open>Example networks\<close>

text \<open>
  One neuron with charge 50, leak 1 and threshold 1000, at tick 0, with the given
  norepinephrine level and the other neuromodulators at baseline.
\<close>

definition lone_neuron :: "int \<Rightarrow> Network" where
  "lone_neuron ne =
     \<lparr>currentTick = 0, plasticityEnabled = True, operantMode = False,
      razorEnabled = True, maxSpikesPerTick = 5000, lastCandidateCount = 0,
      chemicals = \<lparr>dopamine = 50, norepinephrine = ne, serotonin = 50, acetylcholine = 50\<rparr>,
      neurons = [\<lparr>currentCharge = 50, leakRate = 1, threshold = 1000, lastFiredStep = - 6,
                  refractoryDelay = 5, synapseListIndex = 0, synapseCount = 0\<rparr>],
      synapses = [], dynamicSynapses = [],
      spikeQueue = \<lparr>queue = [], currentFired = [], sq_currentTick = 0\<rparr>,
      firedThisTick = [], firedLastTick = [], refractoryBits = [0]\<rparr>"

text \<open>
  One neuron that the host fires with \<open>injectSpike\<close> and then charges with
  \<open>injectCharge(0, -5)\<close>, before the first tick.
\<close>

definition refractory_charged :: Network where
  "refractory_charged =
     injectCharge 0 (- 5) (injectSpike 0 (snd (addNeuron 10 1 5 (Network_new 1 0))))"

text \<open>
  Two neurons and one inhibitory synapse of weight \<open>-16\<close> from neuron 0 to neuron 1;
  the host fires neuron 0 before the first tick. \<open>inhibitory_pair_1\<close> is the network
  one tick later.
\<close>

definition inhibitory_pair :: Network where
  "inhibitory_pair =
     injectSpike 0 (snd (connectNeurons 0 1 (- 16) False
       (snd (addNeuron 10 1 5 (snd (addNeuron 10 1 5 (Network_new 2 1)))))))"

definition inhibitory_pair_1 :: Network where
  "inhibitory_pair_1 =
   \<lparr>currentTick = 1, plasticityEnabled = True, operantMode = False,
    razorEnabled = True, maxSpikesPerTick = 5000, lastCandidateCount = 0,
    chemicals = \<lparr>dopamine = 50, norepinephrine = 30, serotonin = 50, acetylcholine = 50\<rparr>,
    neurons =
      [\<lparr>currentCharge = 0, leakRate = 1, threshold = 10, lastFiredStep = 0,
          refractoryDelay = 5, synapseListIndex = 0, synapseCount = 1\<rparr>,
       \<lparr>currentCharge = 0, leakRate = 1, threshold = 10, lastFiredStep = - 6,
          refractoryDelay = 5, synapseListIndex = 0, synapseCount = 0\<rparr>],
    synapses =
      [\<lparr>targetNeuronIndex = 1, weight = - 16, isHebbian = False, eligibilityTrace = 0\<rparr>],
    dynamicSynapses = [],
    spikeQueue = \<lparr>queue = [(0, 0)], currentFired = [], sq_currentTick = 0\<rparr>,
    firedThisTick = [], firedLastTick = [0], refractoryBits = [1]\<rparr>"

text \<open>
  The same pair with an excitatory synapse of weight \<open>3\<close>; \<open>excitatory_pair_1\<close> is
  the network one tick after the host fired neuron 0.
\<close>

definition excitatory_pair :: Network where
  "excitatory_pair =
     injectSpike 0 (snd (connectNeurons 0 1 3 False
       (snd (addNeuron 10 1 5 (snd (addNeuron 10 1 5 (Network_new 2 1)))))))"

definition excitatory_pair_1 :: Network where
  "excitatory_pair_1 =
   \<lparr>currentTick = 1, plasticityEnabled = True, operantMode = False,
    razorEnabled = True, maxSpikesPerTick = 5000, lastCandidateCount = 0,
    chemicals = \<lparr>dopamine = 50, norepinephrine = 30, serotonin = 50, acetylcholine = 50\<rparr>,
    neurons =
      [\<lparr>currentCharge = 0, leakRate = 1, threshold = 10, lastFiredStep = 0,
          refractoryDelay = 5, synapseListIndex = 0, synapseCount = 1\<rparr>,
       \<lparr>currentCharge = 0, leakRate = 1, threshold = 10, lastFiredStep = - 6,
          refractoryDelay = 5, synapseListIndex = 0, synapseCount = 0\<rparr>],
    synapses =
      [\<lparr>targetNeuronIndex = 1, weight = 3, isHebbian = False, eligibilityTrace = 0\<rparr>],
    dynamicSynapses = [],
    spikeQueue = \<lparr>queue = [(0, 0)], currentFired = [], sq_currentTick = 0\<rparr>,
    firedThisTick = [], firedLastTick = [0], refractoryBits = [1]\<rparr>"

text \<open>
  Two neurons in operant mode, some ticks after neuron 0 and then neuron 1 fired: the
  plastic synapse from 0 to 1 still carries an eligibility trace of 60, the synapse back
  is not plastic, and neuron 1 holds some charge.
\<close>

definition traced_pair :: Network where
  "traced_pair =
   \<lparr>currentTick = 53, plasticityEnabled = True, operantMode = True,
    razorEnabled = True, maxSpikesPerTick = 5000, lastCandidateCount = 0,
    chemicals = \<lparr>dopamine = 50, norepinephrine = 30, serotonin = 50, acetylcholine = 50\<rparr>,
    neurons =
      [\<lparr>currentCharge = 0, leakRate = 1, threshold = 10, lastFiredStep = 10,
          refractoryDelay = 5, synapseListIndex = 0, synapseCount = 1\<rparr>,
       \<lparr>currentCharge = 4, leakRate = 1, threshold = 10, lastFiredStep = 13,
          refractoryDelay = 5, synapseListIndex = 1, synapseCount = 1\<rparr>],
    synapses =
      [\<lparr>targetNeuronIndex = 1, weight = 0, isHebbian = True, eligibilityTrace = 60\<rparr>,
       \<lparr>targetNeuronIndex = 0, weight = - 5, isHebbian = False, eligibilityTrace = 0\<rparr>],
    dynamicSynapses = [],
    spikeQueue = \<lparr>queue = [], currentFired = [], sq_currentTick = 52\<rparr>,
    firedThisTick = [], firedLastTick = [], refractoryBits = [0]\<rparr>"

text \<open>
  Ten unconnected neurons, each with charge 10 and threshold 10, Razor enabled with
  \<open>K = 3\<close>, at the start of the firing phase of tick 0.
\<close>

definition neuron_at_threshold :: Neuron where
  "neuron_at_threshold =
     \<lparr>currentCharge = 10, leakRate = 1, threshold = 10, lastFiredStep = - 6,
      refractoryDelay = 5, synapseListIndex = 0, synapseCount = 0\<rparr>"

definition ten_at_threshold :: Network where
  "ten_at_threshold =
     \<lparr>currentTick = 0, plasticityEnabled = True, operantMode = False,
      razorEnabled = True, maxSpikesPerTick = 3, lastCandidateCount = 0,
      chemicals = \<lparr>dopamine = 50, norepinephrine = 30, serotonin = 50, acetylcholine = 50\<rparr>,
      neurons = [neuron_at_threshold, neuron_at_threshold, neuron_at_threshold,
                 neuron_at_threshold, neuron_at_threshold, neuron_at_threshold,
                 neuron_at_threshold, neuron_at_threshold, neuron_at_threshold,
                 neuron_at_threshold],
      synapses = [], dynamicSynapses = [],
      spikeQueue = \<lparr>queue = [], currentFired = [], sq_currentTick = 0\<rparr>,
      firedThisTick = [], firedLastTick = [], refractoryBits = [0]\<rparr>"

text \<open>
  A UKS with a bus of width 1 and two columns, laid out as the constructor numbers the
  neurons: bus neuron 0, column 0 on neurons 1 to 72 (allocated), column 1 on neurons 73
  to 144 (free), Request neuron 145, Global Inhibitor 146. A pattern is on the bus. The
  network is given with the set of neurons that fired in the tick just completed; its
  synapses play no part in \<open>UKS::step\<close> and are left out.
\<close>

definition column_at :: "nat \<Rightarrow> NeuronId \<Rightarrow> bool \<Rightarrow> CorticalColumn" where
  "column_at cid base allocated =
     \<lparr>columnId = cid, inputNeurons = [base..<base + 20],
      pyramidalNeurons = [base + 20..<base + 70], outputNeuron = base + 70,
      inhibitoryNeuron = base + 71, isAllocated = allocated, isActive = False,
      boostValue = 0, allocatedAtTick = 0, activationCount = 0\<rparr>"

definition two_columns :: UKS where
  "two_columns =
     \<lparr>numColumns = 2, busWidth = 1, recognitionThreshold = 12, enableLearning = True,
      columns = [column_at 0 1 True, column_at 1 73 False], busNeurons = [0],
      requestNeuron = 145, globalInhibitor = 146, currentInput = [0],
      activeColumn = None, requestFired = False, totalAllocations = 1,
      totalRecognitions = 0\<rparr>"



definition eligible_synapse :: Synapse where
  "eligible_synapse =
     \<lparr>targetNeuronIndex = 0, weight = 0, isHebbian = True, eligibilityTrace = 100\<rparr>"

section \<open>Properties\<close>

lemma clampVal_range: "0 \<le> clampVal v \<and> clampVal v \<le> 100"
  by (simp add: clampVal_def Let_def)

lemma spikeNorepinephrine_range:
  "0 \<le> norepinephrine (spikeNorepinephrine d c) \<and> norepinephrine (spikeNorepinephrine d c) \<le> 100"
  by (simp add: spikeNorepinephrine_def clamp_def clampVal_range)

lemma spikeNorepinephrine_no_wrap:
  assumes "- 128 \<le> norepinephrine c + d" and "norepinephrine c + d \<le> 127"
  shows "norepinephrine (spikeNorepinephrine d c) = clampVal (norepinephrine c + d)"
proof -
  have "to_int8 (norepinephrine c + d) = norepinephrine c + d"
    using assms by (simp add: to_int8_def)
  then show ?thesis
    by (simp add: spikeNorepinephrine_def clamp_def)
qed

text \<open>
  Claim C7. The claim: a spike of amount \<open>d\<close> stores the old level plus \<open>d\<close>, clamped
  into \<open>[0, 100]\<close>. In the code the sum is stored into the signed byte before the clamp
  runs: norepinephrine at 90 spiked by 50 gives 140, which the byte holds as \<open>-116\<close>, and
  the clamp then stores 0 where the claim says 100.
\<close>

theorem C7_spike_wraps_before_clamp:
  "norepinephrine (spikeNorepinephrine 50
     \<lparr>dopamine = 50, norepinephrine = 90, serotonin = 50, acetylcholine = 50\<rparr>) = 0
   \<and> clampVal (90 + 50) = 100"
  by (simp add: spikeNorepinephrine_def clamp_def clampVal_def to_int8_def)

subsection \<open>What each phase of the tick leaves alone\<close>

lemma step_split: "step sel net = tickEpilogue (firingPhase sel (tickPrologue net))"
  by (simp add: step_def tickPrologue_def tickEpilogue_def Let_def)

lemma foldl_field: "(\<And>s x. g (f s x) = g s) \<Longrightarrow> g (foldl f s xs) = g s"
  by (induction xs arbitrary: s) auto

lemma deliver_frame:
  "currentTick (deliver net syn) = currentTick net"
  "plasticityEnabled (deliver net syn) = plasticityEnabled net"
  "operantMode (deliver net syn) = operantMode net"
  "razorEnabled (deliver net syn) = razorEnabled net"
  "maxSpikesPerTick (deliver net syn) = maxSpikesPerTick net"
  "chemicals (deliver net syn) = chemicals net"
  "synapses (deliver net syn) = synapses net"
  "dynamicSynapses (deliver net syn) = dynamicSynapses net"
  "spikeQueue (deliver net syn) = spikeQueue net"
  "firedThisTick (deliver net syn) = firedThisTick net"
  "firedLastTick (deliver net syn) = firedLastTick net"
  by (simp_all add: deliver_def Let_def)

lemma integrateSpike_frame:
  "currentTick (integrateSpike net x) = currentTick net"
  "plasticityEnabled (integrateSpike net x) = plasticityEnabled net"
  "operantMode (integrateSpike net x) = operantMode net"
  "razorEnabled (integrateSpike net x) = razorEnabled net"
  "maxSpikesPerTick (integrateSpike net x) = maxSpikesPerTick net"
  "chemicals (integrateSpike net x) = chemicals net"
  "synapses (integrateSpike net x) = synapses net"
  "dynamicSynapses (integrateSpike net x) = dynamicSynapses net"
  "spikeQueue (integrateSpike net x) = spikeQueue net"
  "firedThisTick (integrateSpike net x) = firedThisTick net"
  "firedLastTick (integrateSpike net x) = firedLastTick net"
  by (simp_all add: integrateSpike_def Let_def foldl_field deliver_frame)

lemma tickPrologue_frame:
  "currentTick (tickPrologue net) = currentTick net"
  "plasticityEnabled (tickPrologue net) = plasticityEnabled net"
  "operantMode (tickPrologue net) = operantMode net"
  "razorEnabled (tickPrologue net) = razorEnabled net"
  "maxSpikesPerTick (tickPrologue net) = maxSpikesPerTick net"
  "chemicals (tickPrologue net) = chemicals net"
  "synapses (tickPrologue net) = synapses net"
  "dynamicSynapses (tickPrologue net) = dynamicSynapses net"
  "firedThisTick (tickPrologue net) = []"
  "firedLastTick (tickPrologue net) = firedThisTick net"
  by (simp_all add: tickPrologue_def integrationPhase_def leakagePhase_def
        updateRefractoryBits_def Let_def foldl_field integrateSpike_frame)

lemma fireWinner_frame:
  "currentTick (fireWinner t net w) = currentTick net"
  "plasticityEnabled (fireWinner t net w) = plasticityEnabled net"
  "operantMode (fireWinner t net w) = operantMode net"
  "razorEnabled (fireWinner t net w) = razorEnabled net"
  "maxSpikesPerTick (fireWinner t net w) = maxSpikesPerTick net"
  "chemicals (fireWinner t net w) = chemicals net"
  "synapses (fireWinner t net w) = synapses net"
  "dynamicSynapses (fireWinner t net w) = dynamicSynapses net"
  "firedLastTick (fireWinner t net w) = firedLastTick net"
  by (simp_all add: fireWinner_def Let_def)

lemma firingPhase_frame:
  "currentTick (firingPhase sel net) = currentTick net"
  "plasticityEnabled (firingPhase sel net) = plasticityEnabled net"
  "operantMode (firingPhase sel net) = operantMode net"
  "razorEnabled (firingPhase sel net) = razorEnabled net"
  "maxSpikesPerTick (firingPhase sel net) = maxSpikesPerTick net"
  "chemicals (firingPhase sel net) = chemicals net"
  "synapses (firingPhase sel net) = synapses net"
  "dynamicSynapses (firingPhase sel net) = dynamicSynapses net"
  "firedLastTick (firingPhase sel net) = firedLastTick net"
  by (simp_all add: firingPhase_def Let_def foldl_field fireWinner_frame)

lemma forOutgoing_frame:
  "currentTick (forOutgoing f p net) = currentTick net"
  "plasticityEnabled (forOutgoing f p net) = plasticityEnabled net"
  "operantMode (forOutgoing f p net) = operantMode net"
  "razorEnabled (forOutgoing f p net) = razorEnabled net"
  "maxSpikesPerTick (forOutgoing f p net) = maxSpikesPerTick net"
  "chemicals (forOutgoing f p net) = chemicals net"
  "neurons (forOutgoing f p net) = neurons net"
  "spikeQueue (forOutgoing f p net) = spikeQueue net"
  "firedThisTick (forOutgoing f p net) = firedThisTick net"
  "firedLastTick (forOutgoing f p net) = firedLastTick net"
  by (simp_all add: forOutgoing_def Let_def)

lemma foldl_forOutgoing_frame:
  "currentTick (foldl (\<lambda>s p. forOutgoing (h s p) p s) net ps) = currentTick net"
  "plasticityEnabled (foldl (\<lambda>s p. forOutgoing (h s p) p s) net ps) = plasticityEnabled net"
  "operantMode (foldl (\<lambda>s p. forOutgoing (h s p) p s) net ps) = operantMode net"
  "razorEnabled (foldl (\<lambda>s p. forOutgoing (h s p) p s) net ps) = razorEnabled net"
  "maxSpikesPerTick (foldl (\<lambda>s p. forOutgoing (h s p) p s) net ps) = maxSpikesPerTick net"
  "chemicals (foldl (\<lambda>s p. forOutgoing (h s p) p s) net ps) = chemicals net"
  "neurons (foldl (\<lambda>s p. forOutgoing (h s p) p s) net ps) = neurons net"
  "spikeQueue (foldl (\<lambda>s p. forOutgoing (h s p) p s) net ps) = spikeQueue net"
  "firedThisTick (foldl (\<lambda>s p. forOutgoing (h s p) p s) net ps) = firedThisTick net"
  "firedLastTick (foldl (\<lambda>s p. forOutgoing (h s p) p s) net ps) = firedLastTick net"
  by (induction ps arbitrary: net; simp add: forOutgoing_frame)+

lemma plasticityPhase_frame:
  "currentTick (plasticityPhase net) = currentTick net"
  "plasticityEnabled (plasticityPhase net) = plasticityEnabled net"
  "operantMode (plasticityPhase net) = operantMode net"
  "razorEnabled (plasticityPhase net) = razorEnabled net"
  "maxSpikesPerTick (plasticityPhase net) = maxSpikesPerTick net"
  "chemicals (plasticityPhase net) = chemicals net"
  "neurons (plasticityPhase net) = neurons net"
  "spikeQueue (plasticityPhase net) = spikeQueue net"
  "firedThisTick (plasticityPhase net) = firedThisTick net"
  "firedLastTick (plasticityPhase net) = firedLastTick net"
  by (simp_all add: plasticityPhase_def Let_def foldl_forOutgoing_frame)

lemma decayEligibilityTraces_frame:
  "currentTick (decayEligibilityTraces net) = currentTick net"
  "razorEnabled (decayEligibilityTraces net) = razorEnabled net"
  "maxSpikesPerTick (decayEligibilityTraces net) = maxSpikesPerTick net"
  "chemicals (decayEligibilityTraces net) = chemicals net"
  "neurons (decayEligibilityTraces net) = neurons net"
  "spikeQueue (decayEligibilityTraces net) = spikeQueue net"
  "firedThisTick (decayEligibilityTraces net) = firedThisTick net"
  "firedLastTick (decayEligibilityTraces net) = firedLastTick net"
  by (simp_all add: decayEligibilityTraces_def forAllSynapses_def)

lemmas phase_frames = plasticityPhase_frame decayEligibilityTraces_frame

lemma tickEpilogue_chemicals:
  "chemicals (tickEpilogue net) =
     (if norepinephrine (decay (chemicals net)) \<ge> 95
      then (decay (chemicals net))\<lparr>norepinephrine := 70\<rparr> else decay (chemicals net))"
  by (simp add: tickEpilogue_def Let_def phase_frames panicReset_def)

lemma tickEpilogue_panic:
  assumes "norepinephrine (decay (chemicals net)) \<ge> 95"
  shows "neurons (tickEpilogue net) = map (\<lambda>n. n\<lparr>currentCharge := 0\<rparr>) (neurons net)"
    and "queue (spikeQueue (tickEpilogue net)) = []"
    and "firedThisTick (tickEpilogue net) = []"
    and "firedLastTick (tickEpilogue net) = []"
  using assms
  by (simp_all add: tickEpilogue_def Let_def phase_frames panicReset_def SpikeQueue_clear_def)

lemma tickEpilogue_calm:
  assumes "\<not> norepinephrine (decay (chemicals net)) \<ge> 95"
  shows "neurons (tickEpilogue net) = neurons net"
    and "spikeQueue (tickEpilogue net) = spikeQueue net"
    and "firedThisTick (tickEpilogue net) = firedThisTick net"
    and "firedLastTick (tickEpilogue net) = firedLastTick net"
  using assms
  by (simp_all add: tickEpilogue_def Let_def phase_frames)

lemma tickEpilogue_config:
  "razorEnabled (tickEpilogue net) = razorEnabled net"
  "maxSpikesPerTick (tickEpilogue net) = maxSpikesPerTick net"
  "currentTick (tickEpilogue net) = currentTick net + 1"
  by (simp_all add: tickEpilogue_def Let_def phase_frames panicReset_def)

lemma foldl_length:
  "(\<And>s x. length (neurons (f s x)) = length (neurons s))
   \<Longrightarrow> length (neurons (foldl f s xs)) = length (neurons s)"
  by (induction xs arbitrary: s) auto

lemma deliver_length: "length (neurons (deliver net syn)) = length (neurons net)"
  by (simp add: deliver_def Let_def)

lemma integrateSpike_length: "length (neurons (integrateSpike net x)) = length (neurons net)"
  by (simp add: integrateSpike_def Let_def foldl_length deliver_length)

lemma tickPrologue_length: "length (neurons (tickPrologue net)) = length (neurons net)"
  by (simp add: tickPrologue_def integrationPhase_def leakagePhase_def
        updateRefractoryBits_def Let_def foldl_length integrateSpike_length)

lemma fireWinner_length: "length (neurons (fireWinner t net w)) = length (neurons net)"
  by (simp add: fireWinner_def Let_def)

lemma firingPhase_length: "length (neurons (firingPhase sel net)) = length (neurons net)"
  by (simp add: firingPhase_def Let_def foldl_length fireWinner_length)

lemma fired_foldl_fireWinner:
  "set (firedThisTick (foldl (fireWinner t) net ws)) = set (firedThisTick net) \<union> snd ` set ws"
  by (induction ws arbitrary: net) (auto simp: fireWinner_def fired_insert_def Let_def)

lemma distinct_foldl_fireWinner:
  "distinct (firedThisTick net) \<Longrightarrow> distinct (firedThisTick (foldl (fireWinner t) net ws))"
  by (induction ws arbitrary: net) (auto simp: fireWinner_def fired_insert_def Let_def)

lemma razor_length:
  "razorEnabled net \<Longrightarrow> length (razor sel net cands) \<le> maxSpikesPerTick net"
  by (simp add: razor_def)

lemma firingPhase_fired:
  "set (firedThisTick (firingPhase sel net)) =
     set (firedThisTick net) \<union> snd ` set (razor sel net (candidatesOf net))"
  by (simp add: firingPhase_def Let_def fired_foldl_fireWinner razor_def)

subsection \<open>The Razor bounds the fired set\<close>

text \<open>
  Claim C4. With the Razor enabled, the set \<open>fired_this_tick\<close> that \<open>step\<close> leaves
  behind has at most \<open>K = max_spikes_per_tick\<close> members, for every network state and
  every rearrangement \<open>nth_element\<close> may produce.
\<close>

theorem C4_razor_caps_fired_set:
  assumes "razorEnabled net"
  shows "card (set (firedThisTick (step sel net))) \<le> maxSpikesPerTick net"
proof (cases "norepinephrine (decay (chemicals (firingPhase sel (tickPrologue net)))) \<ge> 95")
  case True
  then show ?thesis by (simp add: step_split tickEpilogue_panic)
next
  case False
  let ?p = "tickPrologue net"
  let ?ws = "razor sel ?p (candidatesOf ?p)"
  have "set (firedThisTick (step sel net)) = snd ` set ?ws"
    using False by (simp add: step_split tickEpilogue_calm firingPhase_fired tickPrologue_frame)
  moreover have "card (snd ` set ?ws) \<le> length ?ws"
    by (meson card_image_le card_length le_trans List.finite_set)
  moreover have "length ?ws \<le> maxSpikesPerTick net"
    using assms razor_length [of ?p sel "candidatesOf ?p"] by (simp add: tickPrologue_frame)
  ultimately show ?thesis by simp
qed

subsection \<open>Panic reset\<close>

lemma decay_ne_high:
  assumes "96 \<le> norepinephrine c" "norepinephrine c \<le> 127"
  shows "norepinephrine (decay c) = norepinephrine c - 1"
  using assms by (simp add: decay_def decayToward_def to_int8_def)

text \<open>
  Claim C5, as amended. \<open>step\<close> runs the chemistry decay before it tests
  \<open>norepinephrine >= 95\<close>. When norepinephrine is at least 96 at the start of the
  step, it is still at least 95 at the test, and after the step every neuron's charge is
  zero, the spike queue is empty, both fired sets are empty and norepinephrine is
  exactly 70.
\<close>

theorem C5_panic_reset_from_96:
  assumes "96 \<le> norepinephrine (chemicals net)" and "norepinephrine (chemicals net) \<le> 127"
  shows "(\<forall>n \<in> set (neurons (step sel net)). currentCharge n = 0)
       \<and> length (neurons (step sel net)) = length (neurons net)
       \<and> queue (spikeQueue (step sel net)) = []
       \<and> firedThisTick (step sel net) = []
       \<and> firedLastTick (step sel net) = []
       \<and> norepinephrine (chemicals (step sel net)) = 70"
proof -
  let ?f = "firingPhase sel (tickPrologue net)"
  have c: "chemicals ?f = chemicals net"
    by (simp add: firingPhase_frame tickPrologue_frame)
  have p: "norepinephrine (decay (chemicals ?f)) \<ge> 95"
    using assms by (simp add: c decay_ne_high)
  have "neurons (step sel net) = map (\<lambda>n. n\<lparr>currentCharge := 0\<rparr>) (neurons ?f)"
    using p by (simp add: step_split tickEpilogue_panic)
  then have "(\<forall>n \<in> set (neurons (step sel net)). currentCharge n = 0)"
    and "length (neurons (step sel net)) = length (neurons net)"
    by (auto simp: firingPhase_length tickPrologue_length)
  moreover have "queue (spikeQueue (step sel net)) = []"
    and "firedThisTick (step sel net) = []" and "firedLastTick (step sel net) = []"
    using p by (simp_all add: step_split tickEpilogue_panic)
  moreover have "norepinephrine (chemicals (step sel net)) = 70"
    using p by (simp add: step_split tickEpilogue_chemicals)
  ultimately show ?thesis by simp
qed

theorem C5_panic_reset_from_96_witness:
  "96 \<le> norepinephrine (chemicals (lone_neuron 96))
   \<and> norepinephrine (chemicals (lone_neuron 96)) \<le> 127
   \<and> map currentCharge (neurons (step sel_small_ids (lone_neuron 96))) = [0]
   \<and> queue (spikeQueue (step sel_small_ids (lone_neuron 96))) = []
   \<and> firedThisTick (step sel_small_ids (lone_neuron 96)) = []
   \<and> firedLastTick (step sel_small_ids (lone_neuron 96)) = []
   \<and> norepinephrine (chemicals (step sel_small_ids (lone_neuron 96))) = 70"
proof -
  have h1: "96 \<le> norepinephrine (chemicals (lone_neuron 96))"
    and h2: "norepinephrine (chemicals (lone_neuron 96)) \<le> 127"
    by (simp_all add: lone_neuron_def)
  note r = C5_panic_reset_from_96 [OF h1 h2, of sel_small_ids]
  from r have "length (neurons (step sel_small_ids (lone_neuron 96))) = 1"
    by (simp add: lone_neuron_def)
  then obtain n where n: "neurons (step sel_small_ids (lone_neuron 96)) = [n]"
    by (cases "neurons (step sel_small_ids (lone_neuron 96))") auto
  with r have "map currentCharge (neurons (step sel_small_ids (lone_neuron 96))) = [0]"
    by simp
  with r h1 h2 show ?thesis by blast
qed

text \<open>
  With norepinephrine at exactly 95 the decay lowers it to 94 before the test: no reset
  happens, the neuron keeps its (leaked) charge 44 and norepinephrine is 94, not 70.
\<close>

lemma lone_prologue:
  "neurons (tickPrologue (lone_neuron ne)) =
     [\<lparr>currentCharge = 44, leakRate = 1, threshold = 1000, lastFiredStep = - 6,
       refractoryDelay = 5, synapseListIndex = 0, synapseCount = 0\<rparr>]"
  by (simp add: tickPrologue_def lone_neuron_def Let_def updateRefractoryBits_def
        leakagePhase_def leakNeuron_def isRefractory_def applyLeak_def CHARGE_MIN_def
        to_int32_def to_int8_def cdiv_def integrationPhase_def getSpikesForTick_def
        advanceTick_def)

lemma lone_candidates: "candidatesOf (tickPrologue (lone_neuron 95)) = []"
  unfolding candidatesOf_def lone_prologue tickPrologue_frame
  by (simp add: lone_neuron_def
        isRefractory_def thresholdReductionOf_def noiseAmplitudeOf_def cdiv_def to_int8_def
        effectiveThresholdOf_def to_int32_def thresholdNoise_def crem_def tickSeed_def
        to_uint32_def lcg_def Let_def)

theorem C5_no_panic_at_95:
  "norepinephrine (chemicals (lone_neuron 95)) = 95
   \<and> norepinephrine (chemicals (step sel_small_ids (lone_neuron 95))) = 94
   \<and> map currentCharge (neurons (step sel_small_ids (lone_neuron 95))) = [44]"
proof -
  let ?f = "firingPhase sel_small_ids (tickPrologue (lone_neuron 95))"
  have c: "chemicals ?f = chemicals (lone_neuron 95)"
    by (simp add: firingPhase_frame tickPrologue_frame)
  have d: "norepinephrine (decay (chemicals ?f)) = 94"
    unfolding c by (simp add: lone_neuron_def decay_def decayToward_def to_int8_def)
  have "neurons ?f = neurons (tickPrologue (lone_neuron 95))"
    by (simp add: firingPhase_def Let_def lone_candidates razor_def)
  then have "map currentCharge (neurons (step sel_small_ids (lone_neuron 95))) = [44]"
    using d by (simp add: step_split tickEpilogue_calm lone_prologue)
  moreover have "norepinephrine (chemicals (step sel_small_ids (lone_neuron 95))) = 94"
    using d by (simp add: step_split tickEpilogue_chemicals)
  ultimately show ?thesis by (simp add: lone_neuron_def)
qed

subsection \<open>Reset\<close>

text \<open>
  Claim C9. \<open>reset()\<close> zeroes \<open>current_tick\<close>, empties the spike queue and both
  fired sets, and sets every neuron's charge to 0 and its \<open>last_fired_tick\<close> to
  \<open>-R - 1\<close>; no synapse's weight or plastic flag changes, and the columns of the UKS,
  with their allocated flags, are the same after the reset.
\<close>

theorem C9_reset_clears_activity_keeps_structure:
  "currentTick (Network_reset net) = 0
   \<and> queue (spikeQueue (Network_reset net)) = []
   \<and> firedThisTick (Network_reset net) = []
   \<and> firedLastTick (Network_reset net) = []
   \<and> map currentCharge (neurons (Network_reset net)) = map (\<lambda>n. 0) (neurons net)
   \<and> map lastFiredStep (neurons (Network_reset net))
       = map (\<lambda>n. - refractoryDelay n - 1) (neurons net)
   \<and> map weight (allSynapses (Network_reset net)) = map weight (allSynapses net)
   \<and> map isHebbian (allSynapses (Network_reset net)) = map isHebbian (allSynapses net)
   \<and> snd (Brain_reset (uks, net)) = Network_reset net
   \<and> map isAllocated (columns (fst (Brain_reset (uks, net)))) = map isAllocated (columns uks)"
  by (simp add: Network_reset_def SpikeQueue_clear_def Neuron_reset_def allSynapses_def
        Brain_reset_def comp_def)

theorem C9_reset_clears_activity_keeps_structure_witness:
  "currentTick (Network_reset inhibitory_pair_1) = 0
   \<and> map currentCharge (neurons (Network_reset inhibitory_pair_1))
       = map (\<lambda>n. 0) (neurons inhibitory_pair_1)
   \<and> map weight (allSynapses (Network_reset inhibitory_pair_1))
       = map weight (allSynapses inhibitory_pair_1)
   \<and> map isAllocated (columns (fst (Brain_reset (two_columns, inhibitory_pair_1))))
       = map isAllocated (columns two_columns)"
  using C9_reset_clears_activity_keeps_structure [of inhibitory_pair_1 two_columns]
  by blast

text \<open>
  Claim C10. \<open>reset()\<close> leaves every eligibility trace as it was, and a reward
  injected after the reset applies \<open>Synapse::applyReward\<close> to every synapse as it
  stood before the reset: the traces earned before the reset are what the reward
  converts into weight changes, exactly as without the reset.
\<close>

theorem C10_reset_keeps_eligibility_traces:
  "map eligibilityTrace (allSynapses (Network_reset net)) = map eligibilityTrace (allSynapses net)
   \<and> allSynapses (injectReward amount (Network_reset net))
       = map (applyReward amount) (allSynapses net)
   \<and> allSynapses (injectReward amount (Network_reset net)) = allSynapses (injectReward amount net)"
  by (simp add: Network_reset_def allSynapses_def injectReward_def forAllSynapses_def
        map_concat comp_def)

theorem C10_reset_keeps_eligibility_traces_witness:
  "map eligibilityTrace (allSynapses traced_pair) = [60, 0]
   \<and> map weight (allSynapses traced_pair) = [0, - 5]
   \<and> map currentCharge (neurons traced_pair) = [0, 4]
   \<and> map currentCharge (neurons (Network_reset traced_pair)) = [0, 0]
   \<and> map eligibilityTrace (allSynapses (Network_reset traced_pair)) = [60, 0]
   \<and> map weight (allSynapses (injectReward 50 (Network_reset traced_pair))) = [16, - 5]
   \<and> map eligibilityTrace (allSynapses (injectReward 50 (Network_reset traced_pair))) = [0, 0]"
proof -
  have a: "allSynapses traced_pair =
      [\<lparr>targetNeuronIndex = 1, weight = 0, isHebbian = True, eligibilityTrace = 60\<rparr>,
       \<lparr>targetNeuronIndex = 0, weight = - 5, isHebbian = False, eligibilityTrace = 0\<rparr>]"
    by (simp add: allSynapses_def traced_pair_def)
  have r: "map (applyReward 50) (allSynapses traced_pair) =
      [\<lparr>targetNeuronIndex = 1, weight = 16, isHebbian = True, eligibilityTrace = 0\<rparr>,
       \<lparr>targetNeuronIndex = 0, weight = - 5, isHebbian = False, eligibilityTrace = 0\<rparr>]"
    unfolding a
    by (simp add: applyReward_def to_int32_def to_int8_def cdiv_def std_clamp_def
          clampWeight_def REWARD_SCALE_FACTOR_def WEIGHT_MIN_def WEIGHT_MAX_def)
  have n: "map currentCharge (neurons traced_pair) = [0, 4]"
    by (simp add: traced_pair_def)
  have z: "map currentCharge (neurons (Network_reset traced_pair)) = [0, 0]"
    by (simp add: traced_pair_def Network_reset_def Neuron_reset_def)
  from C10_reset_keeps_eligibility_traces [of traced_pair 50]
  show ?thesis unfolding r using a n z by simp
qed

subsection \<open>Reward\<close>

lemma applyReward_no_overflow:
  assumes "isHebbian s" and "0 < eligibilityTrace s"
    and "- 16 \<le> weight s" and "weight s \<le> 16"
    and "- 2147483648 \<le> eligibilityTrace s * amount"
    and "eligibilityTrace s * amount < 2147483648"
  shows "applyReward amount s =
           s\<lparr>weight := std_clamp
                  (weight s + std_clamp (cdiv (eligibilityTrace s * amount) 50) (- 16) 16)
                  (- 16) 16,
             eligibilityTrace := 0\<rparr>"
proof -
  have p: "to_int32 (eligibilityTrace s * amount) = eligibilityTrace s * amount"
    using assms(5,6) by (simp add: to_int32_def)
  have d: "- 16 \<le> std_clamp x (- 16) 16 \<and> std_clamp x (- 16) 16 \<le> 16" for x
    by (simp add: std_clamp_def)
  have "to_int8 (weight s + std_clamp x (- 16) 16) = weight s + std_clamp x (- 16) 16" for x
    using assms(3,4) d [of x] by (simp add: to_int8_def)
  then show ?thesis
    using assms(1,2)
    by (simp add: applyReward_def p REWARD_SCALE_FACTOR_def clampWeight_def
          WEIGHT_MIN_def WEIGHT_MAX_def Let_def)
qed

lemma applyReward_not_eligible:
  "\<not> isHebbian s \<or> eligibilityTrace s \<le> 0 \<Longrightarrow> applyReward amount s = s"
  by (auto simp: applyReward_def)

text \<open>
  Claim C6. The claim: for every amount, a plastic synapse with a positive trace gets
  \<open>w := clamp(w + clamp((trace * amount) / 50, -16, 16), -16, 16)\<close>. The code forms
  \<open>trace * amount\<close> as a 32-bit product before it divides and clamps. For trace 100 and
  amount 42949673 the product is \<open>2^32 + 4\<close>, which 32 bits hold as 4: the delta is 0
  and the weight stays 0, where the claim's formula gives 16. The trace is cleared.
\<close>

theorem C6_reward_product_wraps:
  "weight (applyReward 42949673 eligible_synapse) = 0
   \<and> eligibilityTrace (applyReward 42949673 eligible_synapse) = 0
   \<and> std_clamp (weight eligible_synapse
         + std_clamp (cdiv (eligibilityTrace eligible_synapse * 42949673) 50) (- 16) 16)
        (- 16) 16 = 16"
  by (simp add: applyReward_def eligible_synapse_def to_int32_def to_int8_def cdiv_def
        std_clamp_def clampWeight_def REWARD_SCALE_FACTOR_def WEIGHT_MIN_def WEIGHT_MAX_def)

subsection \<open>Unfolding sets for the example networks\<close>

lemmas net_api_defs =
  Network_new_def addNeuron_def connectNeurons_def injectSpike_def injectCharge_def
  Neuron_new_def Synapse_new_def clampWeight_def std_clamp_def WEIGHT_MIN_def WEIGHT_MAX_def
  SpikeQueue_new_def addSpike_def addCharge_def fired_insert_def Neuromodulators_init_def
  ENABLE_RAZOR_def MAX_SPIKES_PER_TICK_def to_int32_def Let_def

lemmas prologue_defs =
  tickPrologue_def updateRefractoryBits_def leakagePhase_def leakNeuron_def isRefractory_def
  applyLeak_def CHARGE_MIN_def to_int32_def to_int8_def cdiv_def integrationPhase_def
  getSpikesForTick_def advanceTick_def integrateSpike_def contiguousOf_def deliver_def
  isRefractoryFast_def Let_def

lemmas firing_defs =
  candidatesOf_def isRefractory_def thresholdReductionOf_def noiseAmplitudeOf_def cdiv_def
  to_int8_def effectiveThresholdOf_def to_int32_def thresholdNoise_def crem_def tickSeed_def
  to_uint32_def lcg_def Let_def

lemmas epilogue_defs =
  tickEpilogue_def plasticityPhase_def forOutgoing_def ltpSynapse_def ltdSynapse_def
  applySTDP_def map_range_def decay_def decayToward_def Let_def

subsection \<open>Sign of the membrane potential\<close>

lemma leakNeuron_nonneg:
  "\<not> isRefractory n tick \<Longrightarrow> 0 \<le> currentCharge (leakNeuron bonus tick n)"
  by (simp add: leakNeuron_def applyLeak_def CHARGE_MIN_def Let_def)

lemma getSpikes_advanceTick:
  "getSpikesForTick t (advanceTick t' q) = (fst (getSpikesForTick t q), advanceTick t' (snd (getSpikesForTick t q)))"
  by (simp add: getSpikesForTick_def advanceTick_def Let_def)

lemma fireWinner_charge:
  "currentCharge (neurons (fireWinner t net w) ! i) = 0
   \<or> neurons (fireWinner t net w) ! i = neurons net ! i"
proof (cases "snd w < length (neurons net)")
  case True
  then show ?thesis by (cases "i = snd w") (simp_all add: fireWinner_def Let_def)
next
  case False
  then show ?thesis by (simp add: fireWinner_def Let_def list_update_beyond)
qed

lemma foldl_fireWinner_charge:
  "currentCharge (neurons (foldl (fireWinner t) net ws) ! i) = 0
   \<or> neurons (foldl (fireWinner t) net ws) ! i = neurons net ! i"
proof (induction ws arbitrary: net)
  case Nil
  then show ?case by simp
next
  case (Cons w ws)
  from Cons.IH [of "fireWinner t net w"] fireWinner_charge [of t net w i]
  show ?case by auto
qed

lemma firingPhase_charge:
  "currentCharge (neurons (firingPhase sel net) ! i) = 0
   \<or> neurons (firingPhase sel net) ! i = neurons net ! i"
  using foldl_fireWinner_charge
    [of "currentTick net" "net\<lparr>lastCandidateCount := length (candidatesOf net)\<rparr>"
        "razor sel (net\<lparr>lastCandidateCount := length (candidatesOf net)\<rparr>) (candidatesOf net)" i]
  by (simp add: firingPhase_def Let_def)

lemma tickEpilogue_charge:
  assumes "i < length (neurons net)"
  shows "currentCharge (neurons (tickEpilogue net) ! i) = 0
         \<or> neurons (tickEpilogue net) ! i = neurons net ! i"
proof (cases "norepinephrine (decay (chemicals net)) \<ge> 95")
  case True
  then show ?thesis using assms by (simp add: tickEpilogue_panic)
next
  case False
  then show ?thesis by (simp add: tickEpilogue_calm)
qed

text \<open>
  The integration phase as one fold of \<open>deliver\<close> over the synapses it walks.
  Delivering changes charges only, so the synapses to walk are the same whatever has been
  delivered before.
\<close>

lemma deliver_bits: "refractoryBits (deliver net syn) = refractoryBits net"
  by (simp add: deliver_def Let_def)

lemma deliver_structure:
  "synapseListIndex (neurons (deliver net syn) ! p) = synapseListIndex (neurons net ! p)"
  "synapseCount (neurons (deliver net syn) ! p) = synapseCount (neurons net ! p)"
proof -
  let ?t = "targetNeuronIndex syn"
  show "synapseListIndex (neurons (deliver net syn) ! p) = synapseListIndex (neurons net ! p)"
    by (cases "p = ?t") (simp_all add: deliver_def Let_def)
  show "synapseCount (neurons (deliver net syn) ! p) = synapseCount (neurons net ! p)"
    by (cases "p = ?t") (simp_all add: deliver_def Let_def)
qed

lemma deliver_outgoing: "outgoingOf (deliver net syn) p = outgoingOf net p"
  by (simp add: outgoingOf_def contiguousOf_def deliver_structure deliver_length deliver_frame)

lemma deliver_refractoryFast: "isRefractoryFast (deliver net syn) q = isRefractoryFast net q"
  by (simp add: isRefractoryFast_def deliver_bits)

lemma foldl_deliver_outgoing: "outgoingOf (foldl deliver net L) p = outgoingOf net p"
  by (induction L arbitrary: net) (simp_all add: deliver_outgoing)

lemma foldl_deliver_refractoryFast:
  "isRefractoryFast (foldl deliver net L) q = isRefractoryFast net q"
  by (induction L arbitrary: net) (simp_all add: deliver_refractoryFast)

lemma foldl_deliver_dynamic: "dynamicSynapses (foldl deliver net L) = dynamicSynapses net"
  by (induction L arbitrary: net) (simp_all add: deliver_frame)

lemma integrateSpike_traverse: "integrateSpike net p = foldl deliver net (outgoingOf net p)"
  by (simp add: integrateSpike_def outgoingOf_def Let_def foldl_deliver_dynamic)

lemma integrate_all_traverse:
  "foldl integrateSpike net ps = foldl deliver net (concat (map (outgoingOf net) ps))"
proof (induction ps arbitrary: net)
  case Nil
  then show ?case by simp
next
  case (Cons p ps)
  have "outgoingOf (integrateSpike net p) = outgoingOf net"
    by (rule ext) (simp add: integrateSpike_traverse foldl_deliver_outgoing)
  then show ?case
    using Cons.IH [of "integrateSpike net p"] by (simp add: integrateSpike_traverse)
qed

lemma deliver_charge_at:
  assumes "i < length (neurons net)"
  shows "currentCharge (neurons (deliver net syn) ! i) =
           (if targetNeuronIndex syn = i \<and> \<not> isRefractoryFast net i
            then to_int32 (currentCharge (neurons net ! i) + weight syn)
            else currentCharge (neurons net ! i))"
  using assms
  by (cases "targetNeuronIndex syn = i") (simp_all add: deliver_def Let_def)

lemma foldl_deliver_charge_at:
  assumes "i < length (neurons net)"
  shows "currentCharge (neurons (foldl deliver net L) ! i) =
           foldl (\<lambda>v s. if targetNeuronIndex s = i \<and> \<not> isRefractoryFast net i
                           then to_int32 (v + weight s) else v)
             (currentCharge (neurons net ! i)) L"
  using assms
proof (induction L arbitrary: net)
  case Nil
  then show ?case by simp
next
  case (Cons s L)
  have "i < length (neurons (deliver net s))"
    using Cons.prems by (simp add: deliver_length)
  from Cons.IH [OF this] show ?case
    using Cons.prems by (simp add: deliver_charge_at deliver_refractoryFast)
qed

lemma sum_nonneg_weights:
  fixes f :: "'a \<Rightarrow> int"
  shows "\<forall>s \<in> set L. P s \<longrightarrow> 0 \<le> f s \<Longrightarrow> 0 \<le> sum_list (map f (filter P L))"
  by (induction L) auto

lemma fold_nonneg_weights:
  fixes v :: int
  assumes "0 \<le> v"
    and "\<forall>s \<in> set L. targetNeuronIndex s = i \<longrightarrow> 0 \<le> weight s"
    and "v + sum_list (map weight (filter (\<lambda>s. targetNeuronIndex s = i) L)) < 2147483648"
  shows "0 \<le> foldl (\<lambda>v s. if targetNeuronIndex s = i \<and> b then to_int32 (v + weight s) else v) v L"
  using assms
proof (induction L arbitrary: v)
  case Nil
  then show ?case by simp
next
  case (Cons s L)
  let ?rest = "sum_list (map weight (filter (\<lambda>s. targetNeuronIndex s = i) L))"
  have rest: "0 \<le> ?rest"
    using Cons.prems(2) by (intro sum_nonneg_weights) simp
  have all: "\<forall>s \<in> set L. targetNeuronIndex s = i \<longrightarrow> 0 \<le> weight s"
    using Cons.prems(2) by simp
  show ?case
  proof (cases "targetNeuronIndex s = i")
    case False
    then show ?thesis
      using Cons.IH [OF Cons.prems(1) all] Cons.prems(3) by simp
  next
    case True
    then have w: "0 \<le> weight s" using Cons.prems(2) by simp
    from True Cons.prems(3) have bound: "v + weight s + ?rest < 2147483648" by simp
    show ?thesis
    proof (cases b)
      case False
      have "v + ?rest < 2147483648" using bound w by simp
      then show ?thesis
        using Cons.IH [OF Cons.prems(1) all] False by simp
    next
      case b: True
      have "0 \<le> v + weight s" and "v + weight s < 2147483648"
        using Cons.prems(1) w bound rest by simp_all
      then have e: "to_int32 (v + weight s) = v + weight s"
        by (simp add: to_int32_def)
      have "0 \<le> v + weight s" using Cons.prems(1) w by simp
      from Cons.IH [OF this all] bound show ?thesis
        using True b e by simp
    qed
  qed
qed


lemma leakNeuron_structure:
  "synapseListIndex (leakNeuron b t n) = synapseListIndex n"
  "synapseCount (leakNeuron b t n) = synapseCount n"
  by (simp_all add: leakNeuron_def applyLeak_def Let_def)

lemma tickPrologue_traverse:
  "\<exists>N. tickPrologue net = foldl deliver N (traversedThisTick net)
       \<and> neurons N = neurons (leakagePhase net)"
proof -
  let ?net2 = "net\<lparr>firedLastTick := firedThisTick net, firedThisTick := [],
                   spikeQueue := advanceTick (currentTick net) (spikeQueue net)\<rparr>"
  let ?M = "leakagePhase (updateRefractoryBits ?net2)"
  let ?r = "getSpikesForTick (currentTick net - 1) (spikeQueue net)"
  let ?N = "?M\<lparr>spikeQueue := advanceTick (currentTick net) (snd ?r)\<rparr>"
  have p: "tickPrologue net = foldl integrateSpike ?N (fst ?r)"
    by (simp add: tickPrologue_def integrationPhase_def leakagePhase_def
          updateRefractoryBits_def Let_def getSpikes_advanceTick)
  have n: "neurons ?N = neurons (leakagePhase net)"
    by (simp add: leakagePhase_def updateRefractoryBits_def Let_def)
  have "outgoingOf ?N p = outgoingOf net p" for p
    by (simp add: outgoingOf_def contiguousOf_def leakagePhase_def updateRefractoryBits_def
          Let_def leakNeuron_structure)
  then have o: "outgoingOf ?N = outgoingOf net"
    by (rule ext)
  have "tickPrologue net = foldl deliver ?N (traversedThisTick net)"
    unfolding p integrate_all_traverse o traversedThisTick_def ..
  with n show ?thesis by blast
qed

lemma leakagePhase_nonneg:
  assumes "i < length (neurons net)"
    and "\<not> isRefractory (neurons net ! i) (currentTick net)"
  shows "0 \<le> currentCharge (neurons (leakagePhase net) ! i)"
  using assms by (simp add: leakagePhase_def Let_def leakNeuron_nonneg)

lemma tickPrologue_nonneg:
  assumes "i < length (neurons net)"
    and "\<not> isRefractory (neurons net ! i) (currentTick net)"
    and "\<forall>w \<in> set (weightsInto net i). 0 \<le> w"
    and "currentCharge (neurons (leakagePhase net) ! i) + sum_list (weightsInto net i)
           < 2147483648"
  shows "0 \<le> currentCharge (neurons (tickPrologue net) ! i)"
proof -
  from tickPrologue_traverse [of net] obtain N where
    p: "tickPrologue net = foldl deliver N (traversedThisTick net)"
    and n: "neurons N = neurons (leakagePhase net)"
    by blast
  have len: "i < length (neurons N)"
    using assms(1) n by (simp add: leakagePhase_def Let_def)
  have w: "\<forall>s \<in> set (traversedThisTick net). targetNeuronIndex s = i \<longrightarrow> 0 \<le> weight s"
    using assms(3) by (simp add: weightsInto_def)
  have b: "currentCharge (neurons N ! i)
             + sum_list (map weight (filter (\<lambda>s. targetNeuronIndex s = i) (traversedThisTick net)))
           < 2147483648"
    using assms(4) n by (simp add: weightsInto_def)
  have z: "0 \<le> currentCharge (neurons N ! i)"
    using leakagePhase_nonneg [OF assms(1,2)] n by simp
  show ?thesis
    unfolding p foldl_deliver_charge_at [OF len]
    by (rule fold_nonneg_weights [OF z w b])
qed

text \<open>
  Claim C2, as amended. A neuron that is not refractory at the tick and to which the
  integration phase of the tick brings no negative weight has \<open>V >= 0\<close> after the
  complete \<open>step\<close>, provided the leaked charge plus the weights brought to it stays
  below \<open>2^31\<close>: leakage clamps the charge at 0, integration adds the weights, and
  the later phases either set the charge to 0 or leave it alone.
\<close>

theorem C2_nonneg_without_inhibitory_input:
  assumes "i < length (neurons net)"
    and "\<not> isRefractory (neurons net ! i) (currentTick net)"
    and "\<forall>w \<in> set (weightsInto net i). 0 \<le> w"
    and "currentCharge (neurons (leakagePhase net) ! i) + sum_list (weightsInto net i)
           < 2147483648"
  shows "0 \<le> currentCharge (neurons (step sel net) ! i)"
proof -
  let ?p = "tickPrologue net"
  let ?f = "firingPhase sel ?p"
  have p: "0 \<le> currentCharge (neurons ?p ! i)"
    using assms by (rule tickPrologue_nonneg)
  have f: "0 \<le> currentCharge (neurons ?f ! i)"
    using firingPhase_charge [of sel ?p i] p by auto
  have "i < length (neurons ?f)"
    using assms(1) by (simp add: firingPhase_length tickPrologue_length)
  from tickEpilogue_charge [OF this] f
  show ?thesis by (auto simp: step_split)
qed


text \<open>
  The pair with the excitatory synapse, one tick after neuron 0 fired: the spike brings
  the weight 3 to neuron 1, which ends the step at charge 3.
\<close>

lemma excitatory_pair_eq:
  "excitatory_pair = excitatory_pair_1\<lparr>currentTick := 0, firedThisTick := [0], firedLastTick := [],
      refractoryBits := [0], spikeQueue := \<lparr>queue = [(0, 0)], currentFired = [0], sq_currentTick = 0\<rparr>\<rparr>"
  by (simp add: excitatory_pair_def excitatory_pair_1_def net_api_defs)

lemma excitatory_pair_prologue:
  "tickPrologue excitatory_pair = excitatory_pair_1\<lparr>currentTick := 0\<rparr>"
  by (simp add: excitatory_pair_eq excitatory_pair_1_def prologue_defs)

lemma excitatory_pair_firing:
  "firingPhase sel (excitatory_pair_1\<lparr>currentTick := 0\<rparr>)
     = excitatory_pair_1\<lparr>currentTick := 0\<rparr>"
  by (simp add: firingPhase_def razor_def excitatory_pair_1_def firing_defs)

lemma excitatory_pair_epilogue:
  "tickEpilogue (excitatory_pair_1\<lparr>currentTick := 0\<rparr>) = excitatory_pair_1"
  by (simp add: excitatory_pair_1_def epilogue_defs)

lemma excitatory_pair_step: "step sel excitatory_pair = excitatory_pair_1"
  by (simp only: step_split excitatory_pair_prologue excitatory_pair_firing
        excitatory_pair_epilogue)

lemma excitatory_pair_1_weights: "weightsInto excitatory_pair_1 1 = [3]"
  by (simp add: weightsInto_def traversedThisTick_def outgoingOf_def contiguousOf_def
        getSpikesForTick_def excitatory_pair_1_def)

lemma excitatory_pair_1_leak:
  "currentCharge (neurons (leakagePhase excitatory_pair_1) ! 1) = 0"
  by (simp add: excitatory_pair_1_def prologue_defs)

lemma excitatory_pair_1_prologue:
  "neurons (tickPrologue excitatory_pair_1) =
      [\<lparr>currentCharge = 0, leakRate = 1, threshold = 10, lastFiredStep = 0,
          refractoryDelay = 5, synapseListIndex = 0, synapseCount = 1\<rparr>,
       \<lparr>currentCharge = 3, leakRate = 1, threshold = 10, lastFiredStep = - 6,
          refractoryDelay = 5, synapseListIndex = 0, synapseCount = 0\<rparr>]"
  by (simp add: excitatory_pair_1_def prologue_defs)

lemma excitatory_pair_1_candidates: "candidatesOf (tickPrologue excitatory_pair_1) = []"
  unfolding candidatesOf_def excitatory_pair_1_prologue tickPrologue_frame
  by (simp add: excitatory_pair_1_def firing_defs)

lemma excitatory_pair_1_step:
  "map currentCharge (neurons (step sel excitatory_pair_1)) = [0, 3]"
proof -
  let ?f = "firingPhase sel (tickPrologue excitatory_pair_1)"
  have c: "chemicals ?f = chemicals excitatory_pair_1"
    by (simp add: firingPhase_frame tickPrologue_frame)
  have d: "\<not> norepinephrine (decay (chemicals ?f)) \<ge> 95"
    unfolding c by (simp add: excitatory_pair_1_def decay_def decayToward_def)
  have "neurons ?f = neurons (tickPrologue excitatory_pair_1)"
    by (simp add: firingPhase_def Let_def excitatory_pair_1_candidates razor_def)
  then show ?thesis
    using d by (simp add: step_split tickEpilogue_calm excitatory_pair_1_prologue)
qed

theorem C2_nonneg_without_inhibitory_input_witness:
  "1 < length (neurons (step sel_small_ids excitatory_pair))
   \<and> \<not> isRefractory (neurons (step sel_small_ids excitatory_pair) ! 1)
          (currentTick (step sel_small_ids excitatory_pair))
   \<and> weightsInto (step sel_small_ids excitatory_pair) 1 = [3]
   \<and> currentCharge (neurons (leakagePhase (step sel_small_ids excitatory_pair)) ! 1)
        + sum_list (weightsInto (step sel_small_ids excitatory_pair) 1) < 2147483648
   \<and> 0 \<le> currentCharge (neurons (step sel_small_ids (step sel_small_ids excitatory_pair)) ! 1)
   \<and> map currentCharge (neurons (step sel_small_ids (step sel_small_ids excitatory_pair)))
       = [0, 3]"
proof -
  let ?net = "step sel_small_ids excitatory_pair"
  have e: "?net = excitatory_pair_1" by (rule excitatory_pair_step)
  have h1: "1 < length (neurons ?net)"
    unfolding e by (simp add: excitatory_pair_1_def)
  have h2: "\<not> isRefractory (neurons ?net ! 1) (currentTick ?net)"
    unfolding e by (simp add: excitatory_pair_1_def isRefractory_def)
  have w: "weightsInto ?net 1 = [3]"
    unfolding e by (rule excitatory_pair_1_weights)
  have h3: "\<forall>w \<in> set (weightsInto ?net 1). 0 \<le> w"
    unfolding w by simp
  have "currentCharge (neurons (leakagePhase ?net) ! 1) = 0"
    unfolding e by (rule excitatory_pair_1_leak)
  then have h4: "currentCharge (neurons (leakagePhase ?net) ! 1) + sum_list (weightsInto ?net 1)
      < 2147483648"
    unfolding w by simp
  have v: "map currentCharge (neurons (step sel_small_ids ?net)) = [0, 3]"
    unfolding e by (rule excitatory_pair_1_step)
  from C2_nonneg_without_inhibitory_input [OF h1 h2 h3 h4, of sel_small_ids] h1 h2 w h4 v
  show ?thesis by blast
qed


text \<open>
  A negative charge survives a complete step in two ways. A refractory neuron is skipped
  by leakage, integration and firing, so the \<open>-5\<close> injected into it is still there
  after the step. A neuron that is not refractory receives the weight \<open>-16\<close> of an
  inhibitory synapse in the integration phase, after the leakage phase has run, and
  ends the step at \<open>-16\<close>.
\<close>

lemma refractory_charged_eq:
  "refractory_charged =
   \<lparr>currentTick = 0, plasticityEnabled = True, operantMode = False,
    razorEnabled = True, maxSpikesPerTick = 5000, lastCandidateCount = 0,
    chemicals = \<lparr>dopamine = 50, norepinephrine = 30, serotonin = 50, acetylcholine = 50\<rparr>,
    neurons =
      [\<lparr>currentCharge = - 5, leakRate = 1, threshold = 10, lastFiredStep = 0,
          refractoryDelay = 5, synapseListIndex = 0, synapseCount = 0\<rparr>],
    synapses = [], dynamicSynapses = [],
    spikeQueue = \<lparr>queue = [(0, 0)], currentFired = [0], sq_currentTick = 0\<rparr>,
    firedThisTick = [0], firedLastTick = [], refractoryBits = [0]\<rparr>"
  by (simp add: refractory_charged_def net_api_defs)

lemma refractory_charged_prologue:
  "neurons (tickPrologue refractory_charged) =
      [\<lparr>currentCharge = - 5, leakRate = 1, threshold = 10, lastFiredStep = 0,
          refractoryDelay = 5, synapseListIndex = 0, synapseCount = 0\<rparr>]"
  by (simp add: refractory_charged_eq prologue_defs)

lemma refractory_charged_candidates: "candidatesOf (tickPrologue refractory_charged) = []"
  unfolding candidatesOf_def refractory_charged_prologue tickPrologue_frame
  by (simp add: refractory_charged_eq firing_defs)

lemma refractory_charged_step:
  "map currentCharge (neurons (step sel refractory_charged)) = [- 5]"
proof -
  let ?f = "firingPhase sel (tickPrologue refractory_charged)"
  have c: "chemicals ?f = chemicals refractory_charged"
    by (simp add: firingPhase_frame tickPrologue_frame)
  have d: "\<not> norepinephrine (decay (chemicals ?f)) \<ge> 95"
    unfolding c by (simp add: refractory_charged_eq decay_def decayToward_def)
  have "neurons ?f = neurons (tickPrologue refractory_charged)"
    by (simp add: firingPhase_def Let_def refractory_charged_candidates razor_def)
  then show ?thesis
    using d by (simp add: step_split tickEpilogue_calm refractory_charged_prologue)
qed

lemma inhibitory_pair_eq:
  "inhibitory_pair = inhibitory_pair_1\<lparr>currentTick := 0, firedThisTick := [0], firedLastTick := [],
      refractoryBits := [0], spikeQueue := \<lparr>queue = [(0, 0)], currentFired = [0], sq_currentTick = 0\<rparr>\<rparr>"
  by (simp add: inhibitory_pair_def inhibitory_pair_1_def net_api_defs)

lemma inhibitory_pair_prologue:
  "tickPrologue inhibitory_pair = inhibitory_pair_1\<lparr>currentTick := 0\<rparr>"
  by (simp add: inhibitory_pair_eq inhibitory_pair_1_def prologue_defs)

lemma inhibitory_pair_firing:
  "firingPhase sel (inhibitory_pair_1\<lparr>currentTick := 0\<rparr>)
     = inhibitory_pair_1\<lparr>currentTick := 0\<rparr>"
  by (simp add: firingPhase_def razor_def inhibitory_pair_1_def firing_defs)

lemma inhibitory_pair_epilogue:
  "tickEpilogue (inhibitory_pair_1\<lparr>currentTick := 0\<rparr>) = inhibitory_pair_1"
  by (simp add: inhibitory_pair_1_def epilogue_defs)

lemma inhibitory_pair_step: "step sel inhibitory_pair = inhibitory_pair_1"
  by (simp only: step_split inhibitory_pair_prologue inhibitory_pair_firing
        inhibitory_pair_epilogue)

lemma inhibitory_pair_1_prologue:
  "neurons (tickPrologue inhibitory_pair_1) =
      [\<lparr>currentCharge = 0, leakRate = 1, threshold = 10, lastFiredStep = 0,
          refractoryDelay = 5, synapseListIndex = 0, synapseCount = 1\<rparr>,
       \<lparr>currentCharge = - 16, leakRate = 1, threshold = 10, lastFiredStep = - 6,
          refractoryDelay = 5, synapseListIndex = 0, synapseCount = 0\<rparr>]"
  by (simp add: inhibitory_pair_1_def prologue_defs)

lemma inhibitory_pair_1_candidates: "candidatesOf (tickPrologue inhibitory_pair_1) = []"
  unfolding candidatesOf_def inhibitory_pair_1_prologue tickPrologue_frame
  by (simp add: inhibitory_pair_1_def firing_defs)

lemma inhibitory_pair_two_steps:
  "map currentCharge (neurons (step sel (step sel inhibitory_pair))) = [0, - 16]"
proof -
  let ?f = "firingPhase sel (tickPrologue inhibitory_pair_1)"
  have c: "chemicals ?f = chemicals inhibitory_pair_1"
    by (simp add: firingPhase_frame tickPrologue_frame)
  have d: "\<not> norepinephrine (decay (chemicals ?f)) \<ge> 95"
    unfolding c by (simp add: inhibitory_pair_1_def decay_def decayToward_def)
  have "neurons ?f = neurons (tickPrologue inhibitory_pair_1)"
    by (simp add: firingPhase_def Let_def inhibitory_pair_1_candidates razor_def)
  then have "map currentCharge (neurons (step sel inhibitory_pair_1)) = [0, - 16]"
    using d by (simp add: step_split tickEpilogue_calm inhibitory_pair_1_prologue)
  then show ?thesis by (simp only: inhibitory_pair_step)
qed

theorem C2_negative_charge_after_step:
  "map currentCharge (neurons (step sel_small_ids refractory_charged)) = [- 5]
   \<and> map currentCharge (neurons (step sel_small_ids (step sel_small_ids inhibitory_pair)))
       = [0, - 16]"
  using refractory_charged_step [of sel_small_ids] inhibitory_pair_two_steps [of sel_small_ids]
  by simp

subsection \<open>Selection by the Razor\<close>

lemma sel_small_ids_ok: "nth_element_ok sel_small_ids"
proof -
  have "nth_element_post k xs (sel_small_ids k xs)" for k xs
  proof -
    let ?zs = "sort_key (\<lambda>c. - fst c) xs"
    have "sorted (map (\<lambda>c. - fst c) (take k ?zs @ drop k ?zs))"
      by simp
    then have "\<forall>a \<in> set (take k ?zs). \<forall>b \<in> set (drop k ?zs). - fst a \<le> - fst b"
      unfolding map_append sorted_append by auto
    then show ?thesis
      by (auto simp: nth_element_post_def sel_small_ids_def list_all_iff)
  qed
  then show ?thesis by (simp add: nth_element_ok_def)
qed

lemma sel_large_ids_ok: "nth_element_ok sel_large_ids"
proof -
  have "nth_element_post k xs (sel_large_ids k xs)" for k xs
  proof -
    let ?zs = "sort_key fst xs"
    let ?m = "length ?zs - k"
    have "sorted (map fst (take ?m ?zs @ drop ?m ?zs))"
      by simp
    then have "\<forall>b \<in> set (take ?m ?zs). \<forall>a \<in> set (drop ?m ?zs). fst b \<le> fst a"
      unfolding map_append sorted_append by auto
    then show ?thesis
      by (auto simp: nth_element_post_def sel_large_ids_def list_all_iff take_rev drop_rev)
  qed
  then show ?thesis by (simp add: nth_element_ok_def)
qed

lemma collectCandidates_sound:
  "(c, j) \<in> set (collectCandidates tick red amp seed i ns)
   \<Longrightarrow> i \<le> j \<and> j < i + length ns \<and> c = currentCharge (ns ! (j - i))"
proof (induction ns arbitrary: seed i)
  case Nil
  then show ?case by simp
next
  case (Cons n ns)
  show ?case
  proof (cases "(c, j) \<in> set (collectCandidates tick red amp
                   (if isRefractory n tick then seed else if amp > 0 then lcg seed else seed)
                   (Suc i) ns)")
    case True
    from Cons.IH [OF this]
    have a: "Suc i \<le> j" and b: "j < Suc i + length ns"
      and d: "c = currentCharge (ns ! (j - Suc i))"
      by simp_all
    from a have "j - i = Suc (j - Suc i)" by simp
    then have "(n # ns) ! (j - i) = ns ! (j - Suc i)" by simp
    with a b d show ?thesis by simp
  next
    case False
    with Cons.prems have "c = currentCharge n \<and> j = i"
      by (auto simp: Let_def split: if_splits)
    then show ?thesis by simp
  qed
qed

lemma collectCandidates_distinct:
  "distinct (map snd (collectCandidates tick red amp seed i ns))"
proof (induction ns arbitrary: seed i)
  case Nil
  then show ?case by simp
next
  case (Cons n ns)
  have "i \<notin> snd ` set (collectCandidates tick red amp s (Suc i) ns)" for s
    using collectCandidates_sound [of _ i tick red amp s "Suc i" ns] by force
  then show ?case
    using Cons.IH by (auto simp: Let_def)
qed

lemma candidatesOf_sound:
  "(c, j) \<in> set (candidatesOf net) \<Longrightarrow> j < length (neurons net) \<and> c = currentCharge (neurons net ! j)"
  using collectCandidates_sound [of c j _ _ _ _ 0 "neurons net"]
  by (simp add: candidatesOf_def)

lemma candidatesOf_distinct: "distinct (map snd (candidatesOf net))"
  by (simp add: candidatesOf_def collectCandidates_distinct)

lemma foldl_fireWinner_untouched:
  "l \<notin> snd ` set ws \<Longrightarrow> neurons (foldl (fireWinner t) net ws) ! l = neurons net ! l"
proof (induction ws arbitrary: net)
  case Nil
  then show ?case by simp
next
  case (Cons a ws)
  then have "l \<noteq> snd a" and "l \<notin> snd ` set ws" by auto
  then show ?case
    using Cons.IH [of "fireWinner t net a"] by (simp add: fireWinner_def Let_def)
qed

lemma foldl_fireWinner_fired:
  "w \<in> snd ` set ws \<Longrightarrow> w < length (neurons net)
   \<Longrightarrow> currentCharge (neurons (foldl (fireWinner t) net ws) ! w) = 0
       \<and> lastFiredStep (neurons (foldl (fireWinner t) net ws) ! w) = t"
proof (induction ws arbitrary: net)
  case Nil
  then show ?case by simp
next
  case (Cons a ws)
  show ?case
  proof (cases "w \<in> snd ` set ws")
    case True
    then show ?thesis
      using Cons.IH [of "fireWinner t net a"] Cons.prems(2) by (simp add: fireWinner_length)
  next
    case False
    with Cons.prems(1) have "w = snd a" by auto
    then have "neurons (fireWinner t net a) ! w
                 = (neurons net ! w)\<lparr>currentCharge := 0, lastFiredStep := t\<rparr>"
      using Cons.prems(2) by (simp add: fireWinner_def Let_def)
    then show ?thesis
      using foldl_fireWinner_untouched [OF False, of t "fireWinner t net a"]
      by simp
  qed
qed

lemma firingPhase_neurons:
  "neurons (firingPhase sel net) =
     neurons (foldl (fireWinner (currentTick net))
                (net\<lparr>lastCandidateCount := length (candidatesOf net)\<rparr>)
                (razor sel net (candidatesOf net)))"
  by (simp add: firingPhase_def Let_def razor_def)

text \<open>
  Claim C3, as amended. In the firing phase, when the Razor is enabled and there are more
  than \<open>K = max_spikes_per_tick\<close> candidates, exactly \<open>K\<close> candidates fire; no
  candidate that does not fire has a larger \<open>V\<close> than one that fires; each neuron that
  fires gets \<open>V = 0\<close> and \<open>last_fired_tick\<close> the current tick; and every other
  neuron, the losing candidates among them, is left exactly as it was. Which of several
  candidates of equal \<open>V\<close> fire is whatever \<open>nth_element\<close> leaves in the first
  \<open>K\<close> places: the comparator looks at the charge only.
\<close>

theorem C3_razor_keeps_k_largest:
  assumes ok: "nth_element_ok sel"
    and raz: "razorEnabled net"
    and more: "maxSpikesPerTick net < length (candidatesOf net)"
    and empty: "firedThisTick net = []"
  shows "card (set (firedThisTick (firingPhase sel net))) = maxSpikesPerTick net
    \<and> set (firedThisTick (firingPhase sel net)) \<subseteq> snd ` set (candidatesOf net)
    \<and> (\<forall>w \<in> set (firedThisTick (firingPhase sel net)).
         \<forall>l \<in> snd ` set (candidatesOf net) - set (firedThisTick (firingPhase sel net)).
           currentCharge (neurons net ! l) \<le> currentCharge (neurons net ! w))
    \<and> (\<forall>w \<in> set (firedThisTick (firingPhase sel net)).
         currentCharge (neurons (firingPhase sel net) ! w) = 0
         \<and> lastFiredStep (neurons (firingPhase sel net) ! w) = currentTick net)
    \<and> (\<forall>l. l \<notin> set (firedThisTick (firingPhase sel net))
         \<longrightarrow> neurons (firingPhase sel net) ! l = neurons net ! l)"
proof -
  let ?K = "maxSpikesPerTick net"
  let ?cs = "candidatesOf net"
  let ?ys = "sel ?K ?cs"
  let ?ws = "take ?K ?ys"
  let ?W = "set (firedThisTick (firingPhase sel net))"
  from ok more have post: "nth_element_post ?K ?cs ?ys"
    by (simp add: nth_element_ok_def)
  then have ms: "mset ?ys = mset ?cs"
    and part: "\<forall>a \<in> set ?ws. \<forall>b \<in> set (drop ?K ?ys). fst b \<le> fst a"
    by (simp_all add: nth_element_post_def list_all_iff)
  from ms have sets: "set ?ys = set ?cs" by (rule mset_eq_setD)
  from ms have len: "length ?ys = length ?cs" by (rule mset_eq_length)
  have "mset (map snd ?ys) = mset (map snd ?cs)" using ms by simp
  from mset_eq_imp_distinct_iff [OF this] have dist: "distinct (map snd ?ys)"
    using candidatesOf_distinct [of net] by simp
  have rz: "razor sel net ?cs = ?ws"
    using raz more by (simp add: razor_def)
  have W: "?W = snd ` set ?ws"
    using rz empty by (simp add: firingPhase_fired)
  have dw: "distinct (map snd ?ws)"
    using dist by (simp add: take_map [symmetric] distinct_take)
  have "card (snd ` set ?ws) = length ?ws"
    using distinct_card [OF dw] by simp
  then have c1: "card ?W = ?K" using W len more by simp
  have sub: "set ?ws \<subseteq> set ?cs"
    using sets set_take_subset [of ?K ?ys] by auto
  then have c2: "?W \<subseteq> snd ` set ?cs" using W by auto
  have split: "set ?ys = set ?ws \<union> set (drop ?K ?ys)"
    by (simp only: set_append [symmetric] append_take_drop_id)
  have c3: "currentCharge (neurons net ! l) \<le> currentCharge (neurons net ! w)"
    if w: "w \<in> ?W" and l: "l \<in> snd ` set ?cs - ?W" for w l
  proof -
    from w have "w \<in> snd ` set ?ws" using W by blast
    then obtain a where a: "a \<in> set ?ws" "w = snd a" by blast
    from l have l1: "l \<in> snd ` set ?cs" by (rule DiffD1)
    from l have "l \<notin> ?W" by blast
    then have l2: "l \<notin> snd ` set ?ws" using W by blast
    from l1 obtain b where b: "b \<in> set ?cs" "l = snd b" by blast
    from l2 b(2) have "b \<notin> set ?ws" by blast
    moreover from b(1) have "b \<in> set ?ys" using sets by blast
    ultimately have "b \<in> set (drop ?K ?ys)" using split by blast
    with part a(1) have le: "fst b \<le> fst a" by blast
    from a(1) sub have "a \<in> set ?cs" by blast
    then have "(fst a, w) \<in> set ?cs" using a(2) by simp
    then have fa: "fst a = currentCharge (neurons net ! w)"
      using candidatesOf_sound by blast
    from b have "(fst b, l) \<in> set ?cs" by simp
    then have fb: "fst b = currentCharge (neurons net ! l)"
      using candidatesOf_sound by blast
    from le fa fb show ?thesis by simp
  qed
  have nf: "neurons (firingPhase sel net) =
      neurons (foldl (fireWinner (currentTick net))
                 (net\<lparr>lastCandidateCount := length ?cs\<rparr>) ?ws)"
    using rz by (simp add: firingPhase_neurons)
  have c4: "currentCharge (neurons (firingPhase sel net) ! w) = 0
            \<and> lastFiredStep (neurons (firingPhase sel net) ! w) = currentTick net"
    if w: "w \<in> ?W" for w
  proof -
    from w c2 obtain c where "(c, w) \<in> set ?cs" by auto
    then have "w < length (neurons net)" using candidatesOf_sound by blast
    then show ?thesis
      using foldl_fireWinner_fired [of w ?ws "net\<lparr>lastCandidateCount := length ?cs\<rparr>"
              "currentTick net"] w W nf
      by simp
  qed
  have c5: "neurons (firingPhase sel net) ! l = neurons net ! l" if "l \<notin> ?W" for l
    using that W nf
      foldl_fireWinner_untouched [of l ?ws "currentTick net"
        "net\<lparr>lastCandidateCount := length ?cs\<rparr>"]
    by simp
  show ?thesis
  proof (intro conjI ballI allI impI)
    show "card ?W = ?K" by (rule c1)
    show "?W \<subseteq> snd ` set ?cs" by (rule c2)
  next
    fix w l assume "w \<in> ?W" "l \<in> snd ` set ?cs - ?W"
    then show "currentCharge (neurons net ! l) \<le> currentCharge (neurons net ! w)" by (rule c3)
  next
    fix w assume "w \<in> ?W"
    then show "currentCharge (neurons (firingPhase sel net) ! w) = 0"
      and "lastFiredStep (neurons (firingPhase sel net) ! w) = currentTick net"
      using c4 by simp_all
  next
    fix l assume "l \<notin> ?W"
    then show "neurons (firingPhase sel net) ! l = neurons net ! l" by (rule c5)
  qed
qed

text \<open>
  Ten candidates of equal charge and \<open>K = 3\<close>: the rearrangement \<open>sel_large_ids\<close>
  meets the guarantee of \<open>nth_element\<close>, and with it neurons 9, 8 and 7 fire while
  neurons 0, 1 and 2, of the same charge and smaller id, keep their charge.
\<close>

lemma ten_candidates:
  "candidatesOf ten_at_threshold =
     [(10, 0), (10, 1), (10, 2), (10, 3), (10, 4), (10, 5), (10, 6), (10, 7), (10, 8), (10, 9)]"
  by (simp add: ten_at_threshold_def neuron_at_threshold_def firing_defs)

lemma ten_large_ids:
  "take 3 (sel_large_ids 3 (candidatesOf ten_at_threshold)) = [(10, 9), (10, 8), (10, 7)]"
  by (simp add: ten_candidates sel_large_ids_def)

lemma ten_config:
  "razorEnabled ten_at_threshold" "maxSpikesPerTick ten_at_threshold = 3"
  "currentTick ten_at_threshold = 0" "firedThisTick ten_at_threshold = []"
  by (simp_all add: ten_at_threshold_def)

lemma ten_fired:
  "firedThisTick (firingPhase sel_large_ids ten_at_threshold) = [9, 8, 7]"
  "map currentCharge (neurons (firingPhase sel_large_ids ten_at_threshold))
     = [10, 10, 10, 10, 10, 10, 10, 0, 0, 0]"
proof -
  have l: "length (candidatesOf ten_at_threshold) = 10"
    by (simp add: ten_candidates)
  have f: "firingPhase sel_large_ids ten_at_threshold =
        foldl (fireWinner 0) (ten_at_threshold\<lparr>lastCandidateCount := 10\<rparr>)
          [(10, 9), (10, 8), (10, 7)]"
    by (simp add: firingPhase_def Let_def razor_def l ten_config ten_large_ids)
  show "firedThisTick (firingPhase sel_large_ids ten_at_threshold) = [9, 8, 7]"
    unfolding f
    by (simp add: fireWinner_def fired_insert_def Let_def ten_at_threshold_def)
  show "map currentCharge (neurons (firingPhase sel_large_ids ten_at_threshold))
     = [10, 10, 10, 10, 10, 10, 10, 0, 0, 0]"
    unfolding f
    by (simp add: fireWinner_def Let_def ten_at_threshold_def neuron_at_threshold_def)
qed

theorem C3_tie_not_broken_by_id:
  "nth_element_post 3 (candidatesOf ten_at_threshold)
     (sel_large_ids 3 (candidatesOf ten_at_threshold))
   \<and> map currentCharge (neurons ten_at_threshold) = [10, 10, 10, 10, 10, 10, 10, 10, 10, 10]
   \<and> firedThisTick (firingPhase sel_large_ids ten_at_threshold) = [9, 8, 7]
   \<and> map currentCharge (neurons (firingPhase sel_large_ids ten_at_threshold))
       = [10, 10, 10, 10, 10, 10, 10, 0, 0, 0]"
proof -
  have "3 < length (candidatesOf ten_at_threshold)"
    by (simp add: ten_candidates)
  then have "nth_element_post 3 (candidatesOf ten_at_threshold)
     (sel_large_ids 3 (candidatesOf ten_at_threshold))"
    using sel_large_ids_ok by (simp add: nth_element_ok_def)
  moreover have "map currentCharge (neurons ten_at_threshold)
      = [10, 10, 10, 10, 10, 10, 10, 10, 10, 10]"
    by (simp add: ten_at_threshold_def neuron_at_threshold_def)
  ultimately show ?thesis using ten_fired by simp
qed

theorem C3_razor_keeps_k_largest_witness:
  "razorEnabled ten_at_threshold
   \<and> maxSpikesPerTick ten_at_threshold < length (candidatesOf ten_at_threshold)
   \<and> firedThisTick ten_at_threshold = []
   \<and> card (set (firedThisTick (firingPhase sel_small_ids ten_at_threshold)))
       = maxSpikesPerTick ten_at_threshold
   \<and> set (firedThisTick (firingPhase sel_small_ids ten_at_threshold))
       \<subseteq> snd ` set (candidatesOf ten_at_threshold)"
proof -
  have h2: "razorEnabled ten_at_threshold" by (rule ten_config)
  have h3: "maxSpikesPerTick ten_at_threshold < length (candidatesOf ten_at_threshold)"
    by (simp add: ten_candidates ten_config)
  have h4: "firedThisTick ten_at_threshold = []" by (rule ten_config)
  from C3_razor_keeps_k_largest [OF sel_small_ids_ok h2 h3 h4] h2 h3 h4
  show ?thesis by blast
qed

text \<open>
  A whole \<open>step\<close> on the ten neurons: leakage and the serotonin bonus bring every
  charge from 10 to 4, which still meets the lowered threshold \<open>10 - 30 / 5 = 4\<close>, so
  all ten are candidates and the Razor lets three of them fire.
\<close>

lemma ten_step_prologue:
  "tickPrologue ten_at_threshold =
     ten_at_threshold\<lparr>neurons := replicate 10 (neuron_at_threshold\<lparr>currentCharge := 4\<rparr>)\<rparr>"
  by (simp add: ten_at_threshold_def neuron_at_threshold_def prologue_defs
        upt_conv_Cons numeral_eq_Suc)

lemma ten_step_candidates:
  "candidatesOf (tickPrologue ten_at_threshold) =
     [(4, 0), (4, 1), (4, 2), (4, 3), (4, 4), (4, 5), (4, 6), (4, 7), (4, 8), (4, 9)]"
  unfolding ten_step_prologue
  by (simp add: ten_at_threshold_def neuron_at_threshold_def firing_defs numeral_eq_Suc)

lemma ten_step_fired: "firedThisTick (step sel_small_ids ten_at_threshold) = [0, 1, 2]"
proof -
  let ?p = "tickPrologue ten_at_threshold"
  let ?f = "firingPhase sel_small_ids ?p"
  have l: "length (candidatesOf ?p) = 10"
    by (simp add: ten_step_candidates)
  have t: "take 3 (sel_small_ids 3 (candidatesOf ?p)) = [(4, 0), (4, 1), (4, 2)]"
    by (simp add: ten_step_candidates sel_small_ids_def)
  have f: "?f = foldl (fireWinner 0) (?p\<lparr>lastCandidateCount := 10\<rparr>) [(4, 0), (4, 1), (4, 2)]"
    by (simp add: firingPhase_def Let_def razor_def l t tickPrologue_frame ten_config)
  have ff: "firedThisTick ?f = [0, 1, 2]"
    unfolding f
    unfolding ten_step_prologue
    by (simp add: fireWinner_def fired_insert_def Let_def ten_at_threshold_def)
  have c: "chemicals ?f = chemicals ten_at_threshold"
    by (simp add: firingPhase_frame tickPrologue_frame)
  have d: "\<not> norepinephrine (decay (chemicals ?f)) \<ge> 95"
    unfolding c by (simp add: ten_at_threshold_def decay_def decayToward_def)
  show ?thesis
    using d ff by (simp add: step_split tickEpilogue_calm)
qed

theorem C4_razor_caps_fired_set_witness:
  "razorEnabled ten_at_threshold
   \<and> maxSpikesPerTick ten_at_threshold = 3
   \<and> length (candidatesOf (tickPrologue ten_at_threshold)) = 10
   \<and> firedThisTick (step sel_small_ids ten_at_threshold) = [0, 1, 2]
   \<and> card (set (firedThisTick (step sel_small_ids ten_at_threshold)))
       \<le> maxSpikesPerTick ten_at_threshold"
proof -
  have h: "razorEnabled ten_at_threshold" by (rule ten_config)
  have k: "maxSpikesPerTick ten_at_threshold = 3" by (rule ten_config)
  have l: "length (candidatesOf (tickPrologue ten_at_threshold)) = 10"
    by (simp add: ten_step_candidates)
  from C4_razor_caps_fired_set [OF h, of sel_small_ids] h k l ten_step_fired
  show ?thesis by blast
qed

subsection \<open>One-shot allocation by the UKS\<close>



lemma suppressOthers_fst: "fst (suppressOthers w st) = fst st"
  by (simp add: suppressOthers_def)


lemma allocateColumn_fields:
  "currentInput (fst (allocateColumn c pattern (uks, net))) = currentInput uks"
  "enableLearning (fst (allocateColumn c pattern (uks, net))) = enableLearning uks"
  "totalAllocations (fst (allocateColumn c pattern (uks, net))) = totalAllocations uks + 1"
  by (simp_all add: allocateColumn_def Let_def suppressOthers_fst)













subsection \<open>Where the noise comes from\<close>






lemma noiseStep_eq:
  "noiseStep a (seed, net) i =
     (lcg seed, injectCharge i (to_int32 (chargeNoise (lcg seed) a)) net)"
  by (simp add: noiseStep_def Let_def)










end
